theory Spec2Isabelle
  imports
    Main
    "HOL-Library.AList"
    "HOL-Library.Char_ord"
    "HOL-Library.List_Lexorder"
    "HOL-Library.Product_Lexorder"
    "HOL-Library.Multiset"
begin

section \<open>Exceptions and Python containers\<close>

text \<open>
  Every exception class that the modelled code raises is a constructor of \<open>error\<close>; a
  function that can raise returns \<open>error + 'a\<close> with \<open>Inl\<close> for the exception.
  \<open>ValueError\<close>, \<open>IndexError\<close> and \<open>KeyError\<close> are Python's own; the others are declared in
  \<^verbatim>\<open>Common/board.py\<close> and \<^verbatim>\<open>Common/state.py\<close>.
\<close>

datatype error =
    ValueError
  | IndexError
  | KeyError
  | ShiftNotAllowedError
  | NoMorePlayersError
  | UndoNotAllowedError
  | OffroadingError
  | ZeroMovementError
  | TurnContractViolation
  | SecretAccessError
  | PlayerListModificationError

text \<open>Sequencing of two computations that may raise: the first exception wins.\<close>

definition bind_result :: "error + 'a \<Rightarrow> ('a \<Rightarrow> error + 'b) \<Rightarrow> error + 'b" where
  "bind_result m f = (case m of Inl e \<Rightarrow> Inl e | Inr x \<Rightarrow> f x)"

text \<open>
  A loop (or generator) that keeps the elements passing a test that may raise, a list
  comprehension whose element expression may raise, and a \<^verbatim>\<open>for\<close> loop whose body only
  checks (and may raise).
\<close>

fun filter_result :: "('a \<Rightarrow> error + bool) \<Rightarrow> 'a list \<Rightarrow> error + 'a list" where
  "filter_result p [] = Inr []"
| "filter_result p (x # xs) =
     bind_result (p x) (\<lambda>keep.
       bind_result (filter_result p xs) (\<lambda>rest. Inr (if keep then x # rest else rest)))"

fun map_result :: "('a \<Rightarrow> error + 'b) \<Rightarrow> 'a list \<Rightarrow> error + 'b list" where
  "map_result f [] = Inr []"
| "map_result f (x # xs) =
     bind_result (f x) (\<lambda>y. bind_result (map_result f xs) (\<lambda>ys. Inr (y # ys)))"

fun for_each :: "('a \<Rightarrow> error + unit) \<Rightarrow> 'a list \<Rightarrow> error + unit" where
  "for_each f [] = Inr ()"
| "for_each f (x # xs) = bind_result (f x) (\<lambda>_. for_each f xs)"

text \<open>
  A Python \<^verbatim>\<open>dict\<close> (and \<^verbatim>\<open>OrderedDict\<close>) is an association list in insertion order
  whose keys are distinct. \<open>d[k]\<close> raises \<open>KeyError\<close> for a missing key, \<open>d[k] = v\<close> is
  \<open>AList.update\<close> (a present key keeps its position, a new one goes last), \<open>d.pop(k)\<close>
  raises \<open>KeyError\<close> for a missing key, and a dict built from a sequence of items lets a
  later item overwrite an earlier one with the same key.
\<close>

type_synonym ('k, 'v) dict = "('k \<times> 'v) list"

definition keys :: "('k, 'v) dict \<Rightarrow> 'k list" where
  "keys d = map fst d"

definition values_of :: "('k, 'v) dict \<Rightarrow> 'v list" where
  "values_of d = map snd d"

definition dict_lookup :: "('k, 'v) dict \<Rightarrow> 'k \<Rightarrow> error + 'v" where
  "dict_lookup d k = (case map_of d k of None \<Rightarrow> Inl KeyError | Some v \<Rightarrow> Inr v)"

definition dict_get :: "('k, 'v) dict \<Rightarrow> 'k \<Rightarrow> 'v \<Rightarrow> 'v" where
  "dict_get d k dflt = (case map_of d k of None \<Rightarrow> dflt | Some v \<Rightarrow> v)"

definition dict_pop :: "('k, 'v) dict \<Rightarrow> 'k \<Rightarrow> error + ('k, 'v) dict" where
  "dict_pop d k = (if k \<in> set (keys d) then Inr (AList.delete k d) else Inl KeyError)"

definition dict_of_items :: "('k \<times> 'v) list \<Rightarrow> ('k, 'v) dict" where
  "dict_of_items xs = fold (\<lambda>(k, v). AList.update k v) xs []"

text \<open>\<open>xs[i]\<close> on a Python list: a negative index counts from the end.\<close>

definition list_index :: "'a list \<Rightarrow> int \<Rightarrow> error + 'a" where
  "list_index xs i =
     (if 0 \<le> i \<and> i < int (length xs) then Inr (xs ! nat i)
      else if - int (length xs) \<le> i \<and> i < 0 then Inr (xs ! nat (int (length xs) + i))
      else Inl IndexError)"

text \<open>\<open>xs.index(x)\<close>: the position of the first occurrence (used only for a present \<open>x\<close>).\<close>

definition index_of :: "'a list \<Rightarrow> 'a \<Rightarrow> int" where
  "index_of xs x = int (length (takeWhile (\<lambda>y. y \<noteq> x) xs))"

text \<open>\<open>max(xs)\<close> raises \<open>ValueError\<close> on an empty sequence.\<close>

definition py_max :: "('a::linorder) list \<Rightarrow> error + 'a" where
  "py_max xs = (case xs of [] \<Rightarrow> Inl ValueError | y # ys \<Rightarrow> Inr (fold max ys y))"

section \<open>Coordinates, directions and tiles\<close>

text \<open>\<^verbatim>\<open>Common/utils.py\<close>: \<open>Coord(col, row)\<close>, and an RGB colour.\<close>

datatype Coord = Coord (col: int) (row: int)

type_synonym Color = "int \<times> int \<times> int"

definition squared_euclidean_distance :: "Coord \<Rightarrow> Coord \<Rightarrow> int" where
  "squared_euclidean_distance coord1 coord2 =
     (row coord1 - row coord2) ^ 2 + (col coord1 - col coord2) ^ 2"

text \<open>\<^verbatim>\<open>Common/tile.py\<close>: the enum \<open>Direction\<close>, whose value is the unit step \<open>(dx, dy)\<close>.\<close>

datatype Direction = UP | RIGHT | DOWN | LEFT

fun Direction_value :: "Direction \<Rightarrow> int \<times> int" where
  "Direction_value UP = (0, -1)"
| "Direction_value RIGHT = (1, 0)"
| "Direction_value DOWN = (0, 1)"
| "Direction_value LEFT = (-1, 0)"

definition Direction_dx :: "Direction \<Rightarrow> int" where
  "Direction_dx d = fst (Direction_value d)"

definition Direction_dy :: "Direction \<Rightarrow> int" where
  "Direction_dy d = snd (Direction_value d)"

definition all_directions :: "Direction list" where
  "all_directions = [UP, RIGHT, DOWN, LEFT]"

definition rotated :: "Direction \<Rightarrow> int \<Rightarrow> Direction" where
  "rotated d rotation =
     (let start = index_of all_directions d
      in all_directions ! nat ((start + rotation) mod int (length all_directions)))"

definition flip :: "Direction \<Rightarrow> Direction" where
  "flip d = rotated d 2"

definition is_vertical :: "Direction \<Rightarrow> bool" where
  "is_vertical d = (d \<in> {UP, DOWN})"

definition is_horizontal :: "Direction \<Rightarrow> bool" where
  "is_horizontal d = (d \<in> {LEFT, RIGHT})"

datatype TileShape = LINE | CORNER | TEE | CROSS

fun TileShape_connected_directions :: "TileShape \<Rightarrow> Direction set" where
  "TileShape_connected_directions LINE = {UP, DOWN}"
| "TileShape_connected_directions CORNER = {UP, RIGHT}"
| "TileShape_connected_directions TEE = {RIGHT, DOWN, LEFT}"
| "TileShape_connected_directions CROSS = {UP, RIGHT, DOWN, LEFT}"

text \<open>
  \<^verbatim>\<open>Common/gem.py\<close>: \<open>Gem\<close> is an enum of about a hundred named gems, compared by their
  string values; a gem is represented here by that string value.
\<close>

type_synonym Gem = string

type_synonym Treasure = "Gem \<times> Gem"

text \<open>
  A \<open>Tile\<close> object. Its constructor rejects a rotation outside \<open>0..3\<close> and stores the gem
  pair with the smaller gem first.
\<close>

record Tile =
  shape :: TileShape
  rotation :: int
  gems :: Treasure

definition Tile_init :: "TileShape \<Rightarrow> int \<Rightarrow> Treasure \<Rightarrow> error + Tile" where
  "Tile_init shp rot gs =
     (if rot < 0 \<or> rot > 3 then Inl ValueError
      else let gem1 = fst gs; gem2 = snd gs;
               min_gem = min gem1 gem2; max_gem = max gem1 gem2
           in Inr \<lparr>shape = shp, rotation = rot, gems = (min_gem, max_gem)\<rparr>)"

text \<open>
  The class attribute \<open>_connected_direction_map\<close>: a dict with one entry for every shape
  and every rotation in \<open>range(4)\<close>.
\<close>

definition connected_direction_map :: "TileShape \<times> int \<Rightarrow> Direction set option" where
  "connected_direction_map k =
     (case k of (shp, rot) \<Rightarrow>
        if rot \<in> {0, 1, 2, 3}
        then Some ((\<lambda>d. rotated d rot) ` TileShape_connected_directions shp)
        else None)"

definition Tile_connected_directions :: "Tile \<Rightarrow> error + Direction set" where
  "Tile_connected_directions t =
     (case connected_direction_map (shape t, rotation t) of
        None \<Rightarrow> Inl KeyError
      | Some ds \<Rightarrow> Inr ds)"

definition Tile_rotate :: "Tile \<Rightarrow> int \<Rightarrow> error + Tile" where
  "Tile_rotate t new_rotation = Tile_init (shape t) new_rotation (gems t)"

text \<open>A tile value is one that the constructor returns.\<close>

definition Tile_valid :: "Tile \<Rightarrow> bool" where
  "Tile_valid t = (Tile_init (shape t) (rotation t) (gems t) = Inr t)"

section \<open>The board\<close>

text \<open>\<^verbatim>\<open>Common/board.py\<close>.\<close>

datatype BoardEdit =
  BoardEdit (replacements: "(Coord, Coord) dict") (deletions: "Coord set")

record Board =
  tiles :: "(Coord, Tile) dict"
  width :: int
  height :: int

definition count_missing_keys :: "(Coord, Tile) dict \<Rightarrow> int \<Rightarrow> int \<Rightarrow> int" where
  "count_missing_keys ts w h =
     int (length [(x, y). x \<leftarrow> [0..w - 1], y \<leftarrow> [0..h - 1], Coord x y \<notin> set (keys ts)])"

definition validate_tile_gems :: "Tile list \<Rightarrow> error + unit" where
  "validate_tile_gems ts =
     (let gem_set = set (map gems ts)
      in if card gem_set \<noteq> length ts then Inl ValueError else Inr ())"

definition Board_init :: "(Coord, Tile) dict \<Rightarrow> int \<Rightarrow> int \<Rightarrow> error + Board" where
  "Board_init ts w h =
     (if w \<le> 0 \<or> h \<le> 0 then Inl ValueError
      else let missing_keys = count_missing_keys ts w h
           in if missing_keys > 0 then Inl ValueError
              else if int (length ts) + missing_keys > w * h then Inl ValueError
              else bind_result (validate_tile_gems (values_of ts))
                     (\<lambda>_. Inr \<lparr>tiles = ts, width = w, height = h\<rparr>))"

definition with_tiles :: "Board \<Rightarrow> (Coord, Tile) dict \<Rightarrow> error + Board" where
  "with_tiles b new_tiles = Board_init new_tiles (width b) (height b)"

definition is_moveable_row_or_column :: "int \<Rightarrow> bool" where
  "is_moveable_row_or_column which_index = (which_index mod 2 = 0)"

definition assert_in_bounds :: "Board \<Rightarrow> Coord \<Rightarrow> error + unit" where
  "assert_in_bounds b which_coord =
     (if \<not> (0 \<le> col which_coord \<and> col which_coord < width b) then Inl IndexError
      else if \<not> (0 \<le> row which_coord \<and> row which_coord < height b) then Inl IndexError
      else Inr ())"

text \<open>The condition that \<open>assert_in_bounds\<close> checks, as a predicate.\<close>

definition in_bounds :: "Board \<Rightarrow> Coord \<Rightarrow> bool" where
  "in_bounds b c = (0 \<le> col c \<and> col c < width b \<and> 0 \<le> row c \<and> row c < height b)"

definition get_tile :: "Board \<Rightarrow> Coord \<Rightarrow> error + Tile" where
  "get_tile b which_coord =
     bind_result (assert_in_bounds b which_coord) (\<lambda>_. dict_lookup (tiles b) which_coord)"

text \<open>
  A board value is one that the constructor returns, holding tile values in a dict.
\<close>

definition Board_valid :: "Board \<Rightarrow> bool" where
  "Board_valid b =
     (Board_init (tiles b) (width b) (height b) = Inr b
      \<and> distinct (keys (tiles b))
      \<and> list_all Tile_valid (values_of (tiles b)))"

definition get_valid_insert_locations :: "Board \<Rightarrow> Direction \<Rightarrow> Coord set" where
  "get_valid_insert_locations b direction =
     (if is_vertical direction then
        let r = (if direction = DOWN then 0 else height b - 1)
        in if \<not> is_moveable_row_or_column r then {}
           else set [Coord c r. c \<leftarrow> [0..width b - 1], is_moveable_row_or_column c]
      else
        let c = (if direction = RIGHT then 0 else width b - 1)
        in if \<not> is_moveable_row_or_column c then {}
           else set [Coord c r. r \<leftarrow> [0..height b - 1], is_moveable_row_or_column r])"

definition assert_valid_shift_and_insert :: "Board \<Rightarrow> Coord \<Rightarrow> Direction \<Rightarrow> error + unit" where
  "assert_valid_shift_and_insert b which_coord direction =
     bind_result (assert_in_bounds b which_coord) (\<lambda>_.
       if \<not> (is_moveable_row_or_column (col which_coord)
               \<and> is_moveable_row_or_column (row which_coord))
       then Inl ShiftNotAllowedError
       else if which_coord \<notin> get_valid_insert_locations b direction then Inl ValueError
       else Inr ())"

definition slide_row ::
  "Board \<Rightarrow> int \<Rightarrow> Direction \<Rightarrow> error + ((Coord, Tile) dict \<times> Tile \<times> BoardEdit)" where
  "slide_row b which_row direction =
     (let dropped_coord =
            (if direction = LEFT then Coord 0 which_row else Coord (width b - 1) which_row);
          dx = Direction_dx direction;
          coord_replacements =
            dict_of_items
              [(Coord x which_row, Coord (x + dx) which_row).
                 x \<leftarrow> [0..width b - 1], 0 \<le> x + dx \<and> x + dx < width b];
          new_tiles =
            dict_of_items
              [(dict_get coord_replacements coord coord, tile).
                 (coord, tile) \<leftarrow> tiles b, coord \<noteq> dropped_coord];
          board_edit = BoardEdit coord_replacements {dropped_coord}
      in bind_result (dict_lookup (tiles b) dropped_coord) (\<lambda>dropped.
           Inr (new_tiles, dropped, board_edit)))"

definition slide_column ::
  "Board \<Rightarrow> int \<Rightarrow> Direction \<Rightarrow> error + ((Coord, Tile) dict \<times> Tile \<times> BoardEdit)" where
  "slide_column b which_col direction =
     (let dropped_coord =
            (if direction = UP then Coord which_col 0 else Coord which_col (height b - 1));
          dy = Direction_dy direction;
          coord_replacements =
            dict_of_items
              [(Coord which_col y, Coord which_col (y + dy)).
                 y \<leftarrow> [0..height b - 1], 0 \<le> y + dy \<and> y + dy < height b];
          new_tiles =
            dict_of_items
              [(dict_get coord_replacements coord coord, tile).
                 (coord, tile) \<leftarrow> tiles b, coord \<noteq> dropped_coord];
          board_edit = BoardEdit coord_replacements {dropped_coord}
      in bind_result (dict_lookup (tiles b) dropped_coord) (\<lambda>dropped.
           Inr (new_tiles, dropped, board_edit)))"

definition slide_and_insert_tile ::
  "Board \<Rightarrow> Coord \<Rightarrow> Direction \<Rightarrow> Tile \<Rightarrow> error + (Board \<times> Tile \<times> BoardEdit)" where
  "slide_and_insert_tile b which_coord direction tile =
     bind_result (assert_valid_shift_and_insert b which_coord direction) (\<lambda>_.
       bind_result
         (if is_vertical direction then slide_column b (col which_coord) direction
          else slide_row b (row which_coord) direction)
         (\<lambda>(new_tiles, new_spare, edit).
            bind_result (with_tiles b (AList.update which_coord tile new_tiles)) (\<lambda>new_board.
              Inr (new_board, new_spare, edit))))"

text \<open>
  \<open>_adjacent_tiles\<close> and \<open>_neighbors\<close> are generators; the model returns the list of what
  they yield. The source iterates over a Python set of directions, whose order is not
  specified; the model takes them in the order of \<open>all_directions\<close>. The search below
  returns a set, characterised further down independently of this order.
\<close>

definition adjacent_tiles :: "Board \<Rightarrow> Coord \<Rightarrow> error + (Direction \<times> Coord) list" where
  "adjacent_tiles b which_coord =
     (case map_of (tiles b) which_coord of
        None \<Rightarrow> Inr []
      | Some current_tile \<Rightarrow>
          bind_result (Tile_connected_directions current_tile) (\<lambda>ds.
            Inr [(direction, other_coord).
                   direction \<leftarrow> all_directions, direction \<in> ds,
                   other_coord \<leftarrow> [Coord (col which_coord + Direction_dx direction)
                                        (row which_coord + Direction_dy direction)],
                   other_coord \<in> set (keys (tiles b))]))"

definition neighbors :: "Board \<Rightarrow> Coord \<Rightarrow> error + Coord list" where
  "neighbors b which_coord =
     bind_result (adjacent_tiles b which_coord) (\<lambda>adjacent.
       bind_result
         (filter_result
            (\<lambda>(direction, coordinates).
               let opposite_dir = flip direction
               in bind_result (dict_lookup (tiles b) coordinates) (\<lambda>other_tile.
                    bind_result (Tile_connected_directions other_tile) (\<lambda>ds.
                      Inr (opposite_dir \<in> ds))))
            adjacent)
         (\<lambda>kept. Inr (map snd kept)))"

text \<open>
  The body of the inner \<^verbatim>\<open>for\<close> loop of \<open>reachable_destinations\<close>: every neighbour that
  is neither explored nor already on the stack is pushed and marked as seen. The stack
  \<open>frontier\<close> is a list whose head is the top (the end of the Python list).
\<close>

fun push_neighbors ::
  "Coord set \<Rightarrow> Coord list \<Rightarrow> Coord list \<times> Coord set \<Rightarrow> Coord list \<times> Coord set" where
  "push_neighbors reachable [] (frontier, seen) = (frontier, seen)"
| "push_neighbors reachable (neighbor # ns) (frontier, seen) =
     (if neighbor \<notin> reachable \<and> neighbor \<notin> seen
      then push_neighbors reachable ns (neighbor # frontier, insert neighbor seen)
      else push_neighbors reachable ns (frontier, seen))"

text \<open>
  The \<^verbatim>\<open>while\<close> loop of \<open>reachable_destinations\<close>: a depth-first search with the stack
  \<open>frontier\<close>, the explored positions \<open>reachable\<close> and the positions \<open>seen\<close> that were
  pushed. It terminates because every push adds a board position to \<open>seen\<close>.
\<close>

function search :: "Board \<Rightarrow> Coord list \<Rightarrow> Coord set \<Rightarrow> Coord set \<Rightarrow> error + Coord set" where
  "search b frontier reachable seen =
     (case frontier of
        [] \<Rightarrow> Inr reachable
      | current # rest \<Rightarrow>
          (case neighbors b current of
             Inl e \<Rightarrow> Inl e
           | Inr ns \<Rightarrow>
               (case push_neighbors (insert current reachable) ns (rest, seen) of
                  (frontier', seen') \<Rightarrow> search b frontier' (insert current reachable) seen')))"
  by pat_completeness auto
termination
proof (relation "measure (\<lambda>(b, frontier, reachable, seen).
          2 * card (set (keys (tiles b)) - seen) + length frontier)", goal_cases)
  case 1
  show ?case by simp
next
  case (2 b frontier reachable seen current rest ns frontier' seen')
  have fin: "finite (set (keys (tiles b)))" by simp
  have filt: "\<And>p xs ys. filter_result p xs = Inr ys \<Longrightarrow> set ys \<subseteq> set xs"
  proof -
    fix p :: "'a \<Rightarrow> error + bool" and xs ys
    show "filter_result p xs = Inr ys \<Longrightarrow> set ys \<subseteq> set xs"
      by (induction xs arbitrary: ys)
         (auto simp: bind_result_def split: sum.splits if_splits)
  qed
  have sub: "set ns \<subseteq> set (keys (tiles b))"
    using 2(2) filt
    by (fastforce simp: neighbors_def adjacent_tiles_def bind_result_def
          split: sum.splits option.splits)
  have push: "\<And>R fr sn fr' sn'. set ns' \<subseteq> K \<Longrightarrow> finite K \<Longrightarrow> push_neighbors R ns' (fr, sn) = (fr', sn')
        \<Longrightarrow> 2 * card (K - sn') + length fr' \<le> 2 * card (K - sn) + length fr" for ns' K
  proof (induction ns')
    case Nil
    then show ?case by simp
  next
    case (Cons n ns')
    show ?case
    proof (cases "n \<notin> R \<and> n \<notin> sn")
      case True
      with Cons.prems have step: "push_neighbors R ns' (n # fr, insert n sn) = (fr', sn')" by simp
      have "2 * card (K - sn') + length fr' \<le> 2 * card (K - insert n sn) + length (n # fr)"
        using Cons.IH[OF _ Cons.prems(2) step] Cons.prems(1) by simp
      moreover have "card (K - insert n sn) < card (K - sn)"
        using True Cons.prems(1,2) by (intro psubset_card_mono) auto
      ultimately show ?thesis by simp
    next
      case False
      with Cons.prems have step: "push_neighbors R ns' (fr, sn) = (fr', sn')" by auto
      show ?thesis using Cons.IH[OF _ Cons.prems(2) step] Cons.prems(1) by simp
    qed
  qed
  from 2(3) have eq: "push_neighbors (insert current reachable) ns (rest, seen) = (frontier', seen')"
    by simp
  show ?case using push[OF sub fin eq] 2(1) by simp
qed

definition reachable_destinations :: "Board \<Rightarrow> Coord \<Rightarrow> error + Coord set" where
  "reachable_destinations b start_coord =
     bind_result (assert_in_bounds b start_coord) (\<lambda>_. search b [start_coord] {} {})"

subsection \<open>Vocabulary for the slide\<close>

text \<open>
  The rectangle of the coordinates of a board. For a slide that inserts at \<open>which_coord\<close>
  and travels in direction \<open>dir\<close>: the cell at the far edge, whose tile leaves the board;
  the cells of the row or column that slides; and the neighbour of a cell one step along
  the direction.
\<close>

definition rect :: "int \<Rightarrow> int \<Rightarrow> Coord set" where
  "rect w h = {c. 0 \<le> col c \<and> col c < w \<and> 0 \<le> row c \<and> row c < h}"

definition far_edge :: "Board \<Rightarrow> Coord \<Rightarrow> Direction \<Rightarrow> Coord" where
  "far_edge b which_coord dir =
     (case dir of
        UP \<Rightarrow> Coord (col which_coord) 0
      | RIGHT \<Rightarrow> Coord (width b - 1) (row which_coord)
      | DOWN \<Rightarrow> Coord (col which_coord) (height b - 1)
      | LEFT \<Rightarrow> Coord 0 (row which_coord))"

definition on_line :: "Coord \<Rightarrow> Direction \<Rightarrow> Coord \<Rightarrow> bool" where
  "on_line which_coord dir c =
     (if is_vertical dir then col c = col which_coord else row c = row which_coord)"

definition step :: "Direction \<Rightarrow> Coord \<Rightarrow> Coord" where
  "step dir c = Coord (col c + Direction_dx dir) (row c + Direction_dy dir)"

text \<open>
  The same slide as the code computes it: the renaming of the coordinates of a row or of a
  column that \<open>coord_replacements.get(coord, coord)\<close> performs, the items of the new dict
  before the insertion, the list of replacements, and the tiles that stay on the board.
\<close>

definition row_shift :: "int \<Rightarrow> int \<Rightarrow> int \<Rightarrow> Coord \<Rightarrow> Coord" where
  "row_shift w r d c =
     (if row c = r \<and> 0 \<le> col c \<and> col c < w \<and> 0 \<le> col c + d \<and> col c + d < w
      then Coord (col c + d) r else c)"

definition column_shift :: "int \<Rightarrow> int \<Rightarrow> int \<Rightarrow> Coord \<Rightarrow> Coord" where
  "column_shift h k d c =
     (if col c = k \<and> 0 \<le> row c \<and> row c < h \<and> 0 \<le> row c + d \<and> row c + d < h
      then Coord k (row c + d) else c)"

definition line_shift :: "Board \<Rightarrow> Coord \<Rightarrow> Direction \<Rightarrow> Coord \<Rightarrow> Coord" where
  "line_shift b which_coord dir =
     (if is_vertical dir
      then column_shift (height b) (col which_coord) (Direction_dy dir)
      else row_shift (width b) (row which_coord) (Direction_dx dir))"

definition line_replacements :: "Board \<Rightarrow> Coord \<Rightarrow> Direction \<Rightarrow> (Coord, Coord) dict" where
  "line_replacements b which_coord dir =
     (if is_vertical dir
      then [(Coord (col which_coord) y, Coord (col which_coord) (y + Direction_dy dir)).
              y \<leftarrow> [0..height b - 1],
              0 \<le> y + Direction_dy dir \<and> y + Direction_dy dir < height b]
      else [(Coord x (row which_coord), Coord (x + Direction_dx dir) (row which_coord)).
              x \<leftarrow> [0..width b - 1],
              0 \<le> x + Direction_dx dir \<and> x + Direction_dx dir < width b])"

definition slid_items ::
  "(Coord \<Rightarrow> Coord) \<Rightarrow> Coord \<Rightarrow> (Coord, Tile) dict \<Rightarrow> (Coord, Tile) dict" where
  "slid_items f dropped ts = map (\<lambda>(c, t). (f c, t)) (filter (\<lambda>(c, t). c \<noteq> dropped) ts)"

definition remaining_tiles :: "Board \<Rightarrow> Coord \<Rightarrow> Tile list" where
  "remaining_tiles b dropped = values_of (filter (\<lambda>(c, t). c \<noteq> dropped) (tiles b))"

section \<open>The game state\<close>

text \<open>\<^verbatim>\<open>Common/state.py\<close>.\<close>

datatype ShiftOp = ShiftOp (insert_location: Coord) (direction: Direction)

definition ShiftOp_reverse :: "ShiftOp \<Rightarrow> Board \<Rightarrow> ShiftOp" where
  "ShiftOp_reverse operation b =
     (if is_vertical (direction operation) then
        let c = col (insert_location operation);
            r = (if row (insert_location operation) = 0 then height b - 1 else 0)
        in ShiftOp (Coord c r) (flip (direction operation))
      else
        let c = (if col (insert_location operation) = 0 then width b - 1 else 0);
            r = row (insert_location operation)
        in ShiftOp (Coord c r) (flip (direction operation)))"

datatype PrevActionKind = EMPTY | PARTIAL_TURN | COMPLETE_TURN

text \<open>
  The union \<open>PrevAction\<close>. The attribute \<open>shift\<close> exists on the partial and the complete
  action only; the code reads it only after testing \<open>kind\<close>.
\<close>

datatype PrevAction =
    EmptyPrevAction
  | PartialTurnPrevAction (shift: ShiftOp)
  | CompleteTurnPrevAction (shift: ShiftOp)

fun kind :: "PrevAction \<Rightarrow> PrevActionKind" where
  "kind EmptyPrevAction = EMPTY"
| "kind (PartialTurnPrevAction s) = PARTIAL_TURN"
| "kind (CompleteTurnPrevAction s) = COMPLETE_TURN"

definition PrevAction_complete :: "PrevAction \<Rightarrow> PrevAction" where
  "PrevAction_complete p = CompleteTurnPrevAction (shift p)"

datatype PlayerSecret =
  PlayerSecret (treasure_location: Coord) (is_going_home: bool) (treasure_count: int)

definition set_is_going_home :: "PlayerSecret \<Rightarrow> PlayerSecret" where
  "set_is_going_home sec = PlayerSecret (treasure_location sec) True (treasure_count sec + 1)"

definition set_new_goal :: "PlayerSecret \<Rightarrow> Coord \<Rightarrow> PlayerSecret" where
  "set_new_goal sec new_goal = PlayerSecret new_goal False (treasure_count sec + 1)"

datatype PlayerState =
  PlayerState (home_location: Coord) (location: Coord) (color: Color) (name: string)

definition with_location :: "PlayerState \<Rightarrow> Coord \<Rightarrow> PlayerState" where
  "with_location p new_location =
     PlayerState (home_location p) new_location (color p) (name p)"

definition move_with_board :: "PlayerState \<Rightarrow> BoardEdit \<Rightarrow> Coord \<Rightarrow> PlayerState" where
  "move_with_board p edit position_if_deleted =
     (if location p \<in> deletions edit then with_location p position_if_deleted
      else if location p \<in> set (keys (replacements edit))
           then with_location p (dict_get (replacements edit) (location p) (location p))
      else p)"

text \<open>
  A \<open>GameState\<close> object of one of the two concrete classes. \<open>player_states\<close> is the
  \<open>OrderedDict\<close> in turn order. \<open>player_color\<close> is the attribute that only a
  \<open>RestrictedGameState\<close> has (its owner); the attributes \<open>num_players\<close> and
  \<open>player_colors\<close>, which the constructor computes from \<open>player_states\<close> and nothing
  changes afterwards, are functions of the state.

  The same record also plays the part of the \<open>GameStateBuilder\<close>: \<open>_copy_builder\<close> is the
  state itself, a setter is a record update, and \<open>build\<close> runs the constructor of the
  state's class on the fields.
\<close>

datatype GameStateClass = RestrictedGameState | RefereeGameState

record GameState =
  state_class :: GameStateClass
  player_states :: "(string, PlayerState) dict"
  player_secrets :: "(string, PlayerSecret) dict"
  spare_tile :: Tile
  board :: Board
  prev_action :: PrevAction
  current_player_index :: int
  player_color :: "string option"

definition num_players :: "GameState \<Rightarrow> int" where
  "num_players s = int (length (player_states s))"

definition player_colors :: "GameState \<Rightarrow> string list" where
  "player_colors s = keys (player_states s)"

definition validate_spare_tile_gems :: "Board \<Rightarrow> Tile \<Rightarrow> error + unit" where
  "validate_spare_tile_gems b spare =
     (let all_tiles = values_of (tiles b) @ [spare] in validate_tile_gems all_tiles)"

definition validate_player_states :: "Board \<Rightarrow> (string, PlayerState) dict \<Rightarrow> error + unit" where
  "validate_player_states b pstates =
     (if length pstates < 1 then Inl ValueError
      else for_each
             (\<lambda>p. bind_result (assert_in_bounds b (location p)) (\<lambda>_.
                    bind_result (assert_in_bounds b (home_location p)) (\<lambda>_.
                      let c = col (home_location p); r = row (home_location p)
                      in if is_moveable_row_or_column c \<or> is_moveable_row_or_column r
                         then Inl ValueError else Inr ())))
             (values_of pstates))"

definition validate_player_secrets :: "Board \<Rightarrow> (string, PlayerSecret) dict \<Rightarrow> error + unit" where
  "validate_player_secrets b psecrets =
     for_each (\<lambda>sec. assert_in_bounds b (treasure_location sec)) (values_of psecrets)"

text \<open>The constructor of the base class, then those of the two subclasses.\<close>

definition GameState_init :: "GameState \<Rightarrow> error + unit" where
  "GameState_init s =
     bind_result (validate_spare_tile_gems (board s) (spare_tile s)) (\<lambda>_.
       bind_result (validate_player_states (board s) (player_states s)) (\<lambda>_.
         if \<not> (0 \<le> current_player_index s
                 \<and> current_player_index s < int (length (player_states s)))
         then Inl IndexError
         else Inr ()))"

definition build :: "GameState \<Rightarrow> error + GameState" where
  "build s =
     bind_result (GameState_init s) (\<lambda>_.
       case state_class s of
         RestrictedGameState \<Rightarrow>
           if length (player_secrets s) \<noteq> 1 then Inl ValueError
           else bind_result (validate_player_secrets (board s) (player_secrets s)) (\<lambda>_.
                  let owner = hd (keys (player_secrets s))
                  in if owner \<notin> set (keys (player_states s)) then Inl KeyError
                     else Inr (s\<lparr>player_color := Some owner\<rparr>))
       | RefereeGameState \<Rightarrow>
           if set (keys (player_secrets s)) \<noteq> set (keys (player_states s)) then Inl ValueError
           else bind_result (validate_player_secrets (board s) (player_secrets s)) (\<lambda>_.
                  Inr (s\<lparr>player_color := None\<rparr>)))"

text \<open>
  A game state value is one that its constructor returns, made of a board value, a tile
  value and two dicts.
\<close>

definition GameState_valid :: "GameState \<Rightarrow> bool" where
  "GameState_valid s =
     (build s = Inr s
      \<and> Board_valid (board s)
      \<and> Tile_valid (spare_tile s)
      \<and> distinct (keys (player_states s))
      \<and> distinct (keys (player_secrets s)))"

text \<open>
  The parts of what \<open>build\<close> checks: one player state, the condition of the state's class
  on the two dicts, and the owner that the constructor stores.
\<close>

definition player_state_ok :: "Board \<Rightarrow> PlayerState \<Rightarrow> bool" where
  "player_state_ok b p =
     (in_bounds b (location p) \<and> in_bounds b (home_location p)
      \<and> \<not> is_moveable_row_or_column (col (home_location p))
      \<and> \<not> is_moveable_row_or_column (row (home_location p)))"

definition owner_of :: "GameState \<Rightarrow> string option" where
  "owner_of s =
     (case state_class s of
        RestrictedGameState \<Rightarrow> Some (hd (keys (player_secrets s)))
      | RefereeGameState \<Rightarrow> None)"

definition class_ok :: "GameState \<Rightarrow> bool" where
  "class_ok s =
     (case state_class s of
        RestrictedGameState \<Rightarrow>
          length (player_secrets s) = 1
          \<and> hd (keys (player_secrets s)) \<in> set (keys (player_states s))
      | RefereeGameState \<Rightarrow> set (keys (player_secrets s)) = set (keys (player_states s)))"

definition current_player_color :: "GameState \<Rightarrow> error + string" where
  "current_player_color s = list_index (player_colors s) (current_player_index s)"

definition current_player_state :: "GameState \<Rightarrow> error + PlayerState" where
  "current_player_state s =
     bind_result (current_player_color s) (\<lambda>c. dict_lookup (player_states s) c)"

subsection \<open>Secrets\<close>

definition can_get_player_secret :: "GameState \<Rightarrow> string \<Rightarrow> bool" where
  "can_get_player_secret s c =
     (case state_class s of
        RestrictedGameState \<Rightarrow> Some c = player_color s
      | RefereeGameState \<Rightarrow> c \<in> set (keys (player_secrets s)))"

definition get_player_secret :: "GameState \<Rightarrow> string \<Rightarrow> error + PlayerSecret" where
  "get_player_secret s c =
     (case state_class s of
        RestrictedGameState \<Rightarrow>
          if \<not> can_get_player_secret s c then Inl SecretAccessError
          else dict_lookup (player_secrets s) (case player_color s of Some owner \<Rightarrow> owner)
      | RefereeGameState \<Rightarrow> dict_lookup (player_secrets s) c)"

definition get_current_player_secret :: "GameState \<Rightarrow> error + PlayerSecret" where
  "get_current_player_secret s =
     bind_result (current_player_color s) (\<lambda>c. get_player_secret s c)"

definition get_current_player_treasure_location :: "GameState \<Rightarrow> error + Coord" where
  "get_current_player_treasure_location s =
     bind_result (get_current_player_secret s) (\<lambda>sec. Inr (treasure_location sec))"

definition is_current_player_at_treasure :: "GameState \<Rightarrow> error + bool" where
  "is_current_player_at_treasure s =
     bind_result (current_player_state s) (\<lambda>p.
       bind_result (get_current_player_treasure_location s) (\<lambda>t. Inr (location p = t)))"

subsection \<open>Transitions\<close>

definition rotate_spare_tile :: "GameState \<Rightarrow> int \<Rightarrow> error + GameState" where
  "rotate_spare_tile s degrees =
     (if degrees mod 90 \<noteq> 0 then Inl ValueError
      else if kind (prev_action s) = PARTIAL_TURN then Inl TurnContractViolation
      else let relative_rotation = degrees div 90;
               new_rotation = (relative_rotation + rotation (spare_tile s)) mod 4
           in bind_result (Tile_rotate (spare_tile s) new_rotation) (\<lambda>new_spare.
                build (s\<lparr>spare_tile := new_spare\<rparr>)))"

definition shift_tiles :: "GameState \<Rightarrow> ShiftOp \<Rightarrow> error + GameState" where
  "shift_tiles s operation =
     (if kind (prev_action s) = PARTIAL_TURN then Inl TurnContractViolation
      else if kind (prev_action s) \<noteq> EMPTY
              \<and> ShiftOp_reverse operation (board s) = shift (prev_action s)
      then Inl UndoNotAllowedError
      else bind_result
             (slide_and_insert_tile (board s) (insert_location operation)
                (direction operation) (spare_tile s))
             (\<lambda>(new_board, new_spare, edit).
                let new_players =
                      dict_of_items
                        [(c, move_with_board p edit (insert_location operation)).
                           (c, p) \<leftarrow> player_states s]
                in build (s\<lparr>player_states := new_players, spare_tile := new_spare,
                            board := new_board,
                            prev_action := PartialTurnPrevAction operation\<rparr>)))"

definition is_reachable_by_current_player :: "GameState \<Rightarrow> Coord \<Rightarrow> error + bool" where
  "is_reachable_by_current_player s which_coord =
     bind_result (current_player_state s) (\<lambda>p.
       bind_result (reachable_destinations (board s) (location p)) (\<lambda>reachable.
         Inr (which_coord \<in> reachable)))"

definition move_current_player :: "GameState \<Rightarrow> Coord \<Rightarrow> error + GameState" where
  "move_current_player s dest_coord =
     bind_result (assert_in_bounds (board s) dest_coord) (\<lambda>_.
       if kind (prev_action s) \<noteq> PARTIAL_TURN then Inl TurnContractViolation
       else bind_result (current_player_state s) (\<lambda>current.
         if dest_coord = location current then Inl ZeroMovementError
         else bind_result (is_reachable_by_current_player s dest_coord) (\<lambda>reachable.
           if \<not> reachable then Inl OffroadingError
           else bind_result (current_player_color s) (\<lambda>mover.
             let new_players =
                   dict_of_items
                     [(if c = mover then (c, with_location p dest_coord) else (c, p)).
                        (c, p) \<leftarrow> player_states s]
             in build (s\<lparr>player_states := new_players,
                         prev_action := PrevAction_complete (prev_action s)\<rparr>)))))"

text \<open>\<^verbatim>\<open>for direction in Direction\<close> runs through the enum in its declaration order.\<close>

definition get_legal_shift_ops :: "GameState \<Rightarrow> ShiftOp set" where
  "get_legal_shift_ops s =
     (if kind (prev_action s) = PARTIAL_TURN then {}
      else let legal_shift_ops =
                 (\<Union>d \<in> set [UP, RIGHT, DOWN, LEFT].
                    (\<lambda>coord. ShiftOp coord d) ` get_valid_insert_locations (board s) d)
           in if kind (prev_action s) \<noteq> EMPTY
              then legal_shift_ops - {ShiftOp_reverse (shift (prev_action s)) (board s)}
              else legal_shift_ops)"

definition get_legal_move_destinations :: "GameState \<Rightarrow> error + Coord set" where
  "get_legal_move_destinations s =
     bind_result (current_player_state s) (\<lambda>current.
       let current_player_location = location current
       in if kind (prev_action s) \<noteq> PARTIAL_TURN then Inr {}
          else bind_result (reachable_destinations (board s) current_player_location)
                 (\<lambda>result. Inr (result - {current_player_location})))"

definition end_current_turn :: "GameState \<Rightarrow> error + GameState" where
  "end_current_turn s =
     (let new_player_index = current_player_index s + 1;
          new_player_index =
            (if new_player_index \<ge> int (length (player_states s)) then 0
             else new_player_index)
      in build (s\<lparr>current_player_index := new_player_index\<rparr>))"

definition set_current_player_new_goal :: "GameState \<Rightarrow> Coord \<Rightarrow> error + GameState" where
  "set_current_player_new_goal s new_goal =
     bind_result (current_player_color s) (\<lambda>mover.
       if \<not> can_get_player_secret s mover then Inr s
       else bind_result (is_current_player_at_treasure s) (\<lambda>at_treasure.
         if \<not> at_treasure then Inr s
         else bind_result (dict_lookup (player_states s) mover) (\<lambda>p.
           bind_result (dict_lookup (player_secrets s) mover) (\<lambda>sec.
             let new_secrets =
                   (if new_goal = home_location p
                    then AList.update mover (set_is_going_home sec) (player_secrets s)
                    else AList.update mover (set_new_goal sec new_goal) (player_secrets s))
             in build (s\<lparr>player_secrets := new_secrets\<rparr>)))))"

subsection \<open>Ejection\<close>

definition eject_current_player :: "GameState \<Rightarrow> error + GameState" where
  "eject_current_player s =
     (case state_class s of
        RestrictedGameState \<Rightarrow> Inl PlayerListModificationError
      | RefereeGameState \<Rightarrow>
          if num_players s = 1 then Inl NoMorePlayersError
          else bind_result (current_player_color s) (\<lambda>current.
            bind_result (dict_pop (player_states s) current) (\<lambda>new_player_states.
              bind_result (dict_pop (player_secrets s) current) (\<lambda>new_player_secrets.
                let new_player_index = current_player_index s;
                    new_player_index =
                      (if new_player_index \<ge> int (length new_player_states) then 0
                       else new_player_index)
                in build (s\<lparr>player_states := new_player_states,
                            player_secrets := new_player_secrets,
                            current_player_index := new_player_index\<rparr>)))))"

definition eject_player :: "GameState \<Rightarrow> string \<Rightarrow> error + GameState" where
  "eject_player s c =
     (case state_class s of
        RestrictedGameState \<Rightarrow> Inl PlayerListModificationError
      | RefereeGameState \<Rightarrow>
          if c \<notin> set (player_colors s) then Inr s
          else if num_players s = 1 then Inl NoMorePlayersError
          else bind_result (dict_pop (player_states s) c) (\<lambda>new_player_states.
            bind_result (dict_pop (player_secrets s) c) (\<lambda>new_player_secrets.
              let ejected_player_index = index_of (player_colors s) c;
                  new_player_index = current_player_index s;
                  new_player_index =
                    (if ejected_player_index < current_player_index s
                     then current_player_index s - 1
                     else if ejected_player_index = current_player_index s
                             \<and> new_player_index \<ge> int (length new_player_states)
                     then 0
                     else new_player_index)
              in build (s\<lparr>player_states := new_player_states,
                          player_secrets := new_player_secrets,
                          current_player_index := new_player_index\<rparr>))))"

section \<open>The referee's winners\<close>

text \<open>\<^verbatim>\<open>Referee/referee.py\<close>.\<close>

definition order_by_game_progress :: "PlayerState \<times> PlayerSecret \<Rightarrow> int \<times> int" where
  "order_by_game_progress player_info =
     (case player_info of (p, sec) \<Rightarrow>
        let goal_location =
              (if is_going_home sec then home_location p else treasure_location sec)
        in (treasure_count sec, - squared_euclidean_distance (location p) goal_location))"

text \<open>
  \<open>_check_winners\<close> up to its local variable \<open>winners\<close>, a list of colours; tuples are
  compared lexicographically, as by \<open>HOL-Library.Product_Lexorder\<close>. The optional
  argument \<open>player_trigger_color\<close> is \<open>None\<close> or a colour.
\<close>

definition check_winners_colors :: "GameState \<Rightarrow> string option \<Rightarrow> error + string list" where
  "check_winners_colors s player_trigger_color =
     bind_result
       (map_result
          (\<lambda>c. bind_result (dict_lookup (player_states s) c) (\<lambda>p.
                 bind_result (get_player_secret s c) (\<lambda>sec.
                   Inr (c, order_by_game_progress (p, sec)))))
          (player_colors s))
       (\<lambda>players_with_progress.
          bind_result (py_max (map snd players_with_progress)) (\<lambda>max_game_progress.
            let winners =
                  [c. (c, progress) \<leftarrow> players_with_progress, progress = max_game_progress]
            in Inr (case player_trigger_color of
                      None \<Rightarrow> winners
                    | Some trigger \<Rightarrow>
                        if length winners > 1 \<and> trigger \<in> set winners then [trigger]
                        else winners)))"

text \<open>
  \<open>GameOutcome\<close> and \<open>_outcome_with_winners\<close>. \<open>players\<close> maps a colour to a player
  object of any type \<open>'p\<close>. The source lists the ejected players by iterating over a
  Python set, in an order that is not specified; the model lists them in the order of
  \<open>players\<close>.
\<close>

datatype 'p GameOutcome = GameOutcome (winners: "'p list") (ejected: "'p list")

definition outcome_with_winners ::
  "string list \<Rightarrow> GameState \<Rightarrow> (string, 'p) dict \<Rightarrow> error + 'p GameOutcome" where
  "outcome_with_winners winner_colors s players =
     (let ejected_names = [c. c \<leftarrow> keys players, c \<notin> set (player_colors s)]
      in bind_result (map_result (dict_lookup players) winner_colors) (\<lambda>ws.
           bind_result (map_result (dict_lookup players) ejected_names) (\<lambda>es.
             Inr (GameOutcome ws es))))"

definition check_winners ::
  "GameState \<Rightarrow> (string, 'p) dict \<Rightarrow> string option \<Rightarrow> error + 'p GameOutcome" where
  "check_winners s players player_trigger_color =
     bind_result (check_winners_colors s player_trigger_color) (\<lambda>winner_colors.
       outcome_with_winners winner_colors s players)"

text \<open>
  The ranking as the specification words it: more treasures rank higher, and among equal
  treasure counts a smaller squared distance from the current location to the active goal
  (the home when going home, else the treasure) ranks higher. \<open>best_ranked\<close> lists, in turn
  order, the players that no player outranks, and \<open>spec_winners\<close> applies the rule for the
  player who triggered the end of the game.
\<close>

definition active_goal :: "PlayerState \<times> PlayerSecret \<Rightarrow> Coord" where
  "active_goal a =
     (if is_going_home (snd a) then home_location (fst a) else treasure_location (snd a))"

definition distance_to_goal :: "PlayerState \<times> PlayerSecret \<Rightarrow> int" where
  "distance_to_goal a = squared_euclidean_distance (location (fst a)) (active_goal a)"

definition ranks_no_lower ::
  "PlayerState \<times> PlayerSecret \<Rightarrow> PlayerState \<times> PlayerSecret \<Rightarrow> bool" where
  "ranks_no_lower a b =
     (treasure_count (snd b) < treasure_count (snd a)
      \<or> (treasure_count (snd b) = treasure_count (snd a)
          \<and> distance_to_goal a \<le> distance_to_goal b))"

definition player_info :: "GameState \<Rightarrow> string \<Rightarrow> (PlayerState \<times> PlayerSecret) option" where
  "player_info s c =
     (case map_of (player_states s) c of
        None \<Rightarrow> None
      | Some p \<Rightarrow>
          (case map_of (player_secrets s) c of None \<Rightarrow> None | Some sec \<Rightarrow> Some (p, sec)))"

definition outranked_by_none :: "GameState \<Rightarrow> string \<Rightarrow> bool" where
  "outranked_by_none s c =
     list_all
       (\<lambda>c'. case player_info s c of
                None \<Rightarrow> False
              | Some a \<Rightarrow> (case player_info s c' of None \<Rightarrow> False | Some b \<Rightarrow> ranks_no_lower a b))
       (player_colors s)"

definition best_ranked :: "GameState \<Rightarrow> string list" where
  "best_ranked s = filter (outranked_by_none s) (player_colors s)"

definition spec_winners :: "GameState \<Rightarrow> string option \<Rightarrow> string list" where
  "spec_winners s player_trigger_color =
     (case player_trigger_color of
        None \<Rightarrow> best_ranked s
      | Some trigger \<Rightarrow>
          if length (best_ranked s) > 1 \<and> trigger \<in> set (best_ranked s) then [trigger]
          else best_ranked s)"

section \<open>Example states\<close>

text \<open>
  A three by three board: a ring of roads around the isolated centre, which is the only
  fixed tile and so the home of every player.
\<close>

definition example_board :: Board where
  "example_board =
     \<lparr>tiles =
        [(Coord 0 0, \<lparr>shape = CORNER, rotation = 1, gems = (''alexandrite'', ''amethyst'')\<rparr>),
         (Coord 1 0, \<lparr>shape = LINE, rotation = 1, gems = (''alexandrite'', ''ametrine'')\<rparr>),
         (Coord 2 0, \<lparr>shape = CORNER, rotation = 2, gems = (''alexandrite'', ''ammolite'')\<rparr>),
         (Coord 0 1, \<lparr>shape = LINE, rotation = 0, gems = (''alexandrite'', ''apatite'')\<rparr>),
         (Coord 1 1, \<lparr>shape = CROSS, rotation = 0, gems = (''alexandrite'', ''aplite'')\<rparr>),
         (Coord 2 1, \<lparr>shape = LINE, rotation = 0, gems = (''alexandrite'', ''beryl'')\<rparr>),
         (Coord 0 2, \<lparr>shape = CORNER, rotation = 0, gems = (''alexandrite'', ''ruby'')\<rparr>),
         (Coord 1 2, \<lparr>shape = TEE, rotation = 0, gems = (''alexandrite'', ''spinel'')\<rparr>),
         (Coord 2 2, \<lparr>shape = CORNER, rotation = 3, gems = (''alexandrite'', ''zircon'')\<rparr>)],
      width = 3, height = 3\<rparr>"

definition example_spare :: Tile where
  "example_spare = \<lparr>shape = TEE, rotation = 2, gems = (''ruby'', ''zircon'')\<rparr>"

definition example_players :: "(string, PlayerState) dict" where
  "example_players =
     [(''red'', PlayerState (Coord 1 1) (Coord 0 0) (255, 0, 0) ''ann''),
      (''green'', PlayerState (Coord 1 1) (Coord 1 1) (0, 255, 0) ''bob''),
      (''blue'', PlayerState (Coord 1 1) (Coord 0 2) (0, 0, 255) ''cy'')]"

text \<open>The referee's state of a game of three players, before the first turn.\<close>

definition example_state :: GameState where
  "example_state =
     \<lparr>state_class = RefereeGameState,
      player_states = example_players,
      player_secrets =
        [(''red'', PlayerSecret (Coord 2 2) False 0),
         (''green'', PlayerSecret (Coord 1 1) False 0),
         (''blue'', PlayerSecret (Coord 0 2) True 1)],
      spare_tile = example_spare,
      board = example_board,
      prev_action = EmptyPrevAction,
      current_player_index = 0,
      player_color = None\<rparr>"

text \<open>The view of the same game that the player \<open>red\<close> is given.\<close>

definition example_restricted_state :: GameState where
  "example_restricted_state =
     \<lparr>state_class = RestrictedGameState,
      player_states = example_players,
      player_secrets = [(''red'', PlayerSecret (Coord 2 2) False 0)],
      spare_tile = example_spare,
      board = example_board,
      prev_action = EmptyPrevAction,
      current_player_index = 0,
      player_color = Some ''red''\<rparr>"

text \<open>The referee's state of a game in which only \<open>green\<close> is left.\<close>

definition example_single_state :: GameState where
  "example_single_state =
     \<lparr>state_class = RefereeGameState,
      player_states = [(''green'', PlayerState (Coord 1 1) (Coord 1 1) (0, 255, 0) ''bob'')],
      player_secrets = [(''green'', PlayerSecret (Coord 1 1) False 0)],
      spare_tile = example_spare,
      board = example_board,
      prev_action = EmptyPrevAction,
      current_player_index = 0,
      player_color = None\<rparr>"

text \<open>The same game when it is the turn of \<open>green\<close>, and when it is the turn of \<open>blue\<close>.\<close>

definition example_green_turn_state :: GameState where
  "example_green_turn_state = example_state\<lparr>current_player_index := 1\<rparr>"

definition example_blue_turn_state :: GameState where
  "example_blue_turn_state = example_state\<lparr>current_player_index := 2\<rparr>"

text \<open>
  A state of the same game in which \<open>red\<close> and \<open>green\<close> both stand on their treasures and no
  player has collected one.
\<close>

definition example_tie_state :: GameState where
  "example_tie_state =
     example_state
       \<lparr>player_secrets :=
          [(''red'', PlayerSecret (Coord 0 0) False 0),
           (''green'', PlayerSecret (Coord 1 1) False 0),
           (''blue'', PlayerSecret (Coord 2 2) False 0)]\<rparr>"

text \<open>
  The first turn of \<open>red\<close> in the example game: the spare tile is inserted at the top of
  the left column, which slides down and drops its bottom tile (taking \<open>blue\<close>, who stood
  on it, to the inserted tile); then \<open>red\<close> moves to the centre.
\<close>

definition example_shift :: ShiftOp where
  "example_shift = ShiftOp (Coord 0 0) DOWN"

definition example_shifted_board :: Board where
  "example_shifted_board =
     \<lparr>tiles =
        [(Coord 0 1, \<lparr>shape = CORNER, rotation = 1, gems = (''alexandrite'', ''amethyst'')\<rparr>),
         (Coord 1 0, \<lparr>shape = LINE, rotation = 1, gems = (''alexandrite'', ''ametrine'')\<rparr>),
         (Coord 2 0, \<lparr>shape = CORNER, rotation = 2, gems = (''alexandrite'', ''ammolite'')\<rparr>),
         (Coord 0 2, \<lparr>shape = LINE, rotation = 0, gems = (''alexandrite'', ''apatite'')\<rparr>),
         (Coord 1 1, \<lparr>shape = CROSS, rotation = 0, gems = (''alexandrite'', ''aplite'')\<rparr>),
         (Coord 2 1, \<lparr>shape = LINE, rotation = 0, gems = (''alexandrite'', ''beryl'')\<rparr>),
         (Coord 1 2, \<lparr>shape = TEE, rotation = 0, gems = (''alexandrite'', ''spinel'')\<rparr>),
         (Coord 2 2, \<lparr>shape = CORNER, rotation = 3, gems = (''alexandrite'', ''zircon'')\<rparr>),
         (Coord 0 0, \<lparr>shape = TEE, rotation = 2, gems = (''ruby'', ''zircon'')\<rparr>)],
      width = 3, height = 3\<rparr>"

definition example_dropped_tile :: Tile where
  "example_dropped_tile = \<lparr>shape = CORNER, rotation = 0, gems = (''alexandrite'', ''ruby'')\<rparr>"

definition example_shifted_state :: GameState where
  "example_shifted_state =
     \<lparr>state_class = RefereeGameState,
      player_states =
        [(''red'', PlayerState (Coord 1 1) (Coord 0 1) (255, 0, 0) ''ann''),
         (''green'', PlayerState (Coord 1 1) (Coord 1 1) (0, 255, 0) ''bob''),
         (''blue'', PlayerState (Coord 1 1) (Coord 0 0) (0, 0, 255) ''cy'')],
      player_secrets = player_secrets example_state,
      spare_tile = example_dropped_tile,
      board = example_shifted_board,
      prev_action = PartialTurnPrevAction example_shift,
      current_player_index = 0,
      player_color = None\<rparr>"

definition example_moved_state :: GameState where
  "example_moved_state =
     example_shifted_state
       \<lparr>player_states :=
          [(''red'', PlayerState (Coord 1 1) (Coord 1 1) (255, 0, 0) ''ann''),
           (''green'', PlayerState (Coord 1 1) (Coord 1 1) (0, 255, 0) ''bob''),
           (''blue'', PlayerState (Coord 1 1) (Coord 0 0) (0, 0, 255) ''cy'')],
        prev_action := CompleteTurnPrevAction example_shift\<rparr>"

section \<open>Basic facts\<close>

lemma bind_result_Inl [simp]: "bind_result (Inl e) f = Inl e"
  by (simp add: bind_result_def)

lemma bind_result_Inr [simp]: "bind_result (Inr x) f = f x"
  by (simp add: bind_result_def)

lemma bind_result_eq_Inr: "bind_result m f = Inr y \<longleftrightarrow> (\<exists>x. m = Inr x \<and> f x = Inr y)"
  by (cases m) auto

lemma for_each_Inr: "for_each f xs = Inr () \<longleftrightarrow> (\<forall>x \<in> set xs. f x = Inr ())"
  by (induction xs) (auto simp: bind_result_eq_Inr)

lemma example_state_valid: "GameState_valid example_state"
  by code_simp

lemma example_restricted_state_valid: "GameState_valid example_restricted_state"
  by code_simp

lemma example_single_state_valid: "GameState_valid example_single_state"
  by code_simp

lemma example_green_turn_state_valid: "GameState_valid example_green_turn_state"
  by code_simp

lemma example_blue_turn_state_valid: "GameState_valid example_blue_turn_state"
  by code_simp

lemma example_tie_state_valid: "GameState_valid example_tie_state"
  by code_simp

lemma example_shifted_state_valid: "GameState_valid example_shifted_state"
  by code_simp

lemma example_moved_state_valid: "GameState_valid example_moved_state"
  by code_simp

lemma example_shift_tiles: "shift_tiles example_state example_shift = Inr example_shifted_state"
  by code_simp

lemma example_move_current_player:
  "move_current_player example_shifted_state (Coord 1 1) = Inr example_moved_state"
  by code_simp

lemma build_eq_Inr:
  "build s = Inr s' \<longleftrightarrow>
     GameState_init s = Inr ()
     \<and> validate_player_secrets (board s) (player_secrets s) = Inr ()
     \<and> (case state_class s of
          RestrictedGameState \<Rightarrow>
            length (player_secrets s) = 1
            \<and> hd (keys (player_secrets s)) \<in> set (keys (player_states s))
            \<and> s' = s\<lparr>player_color := Some (hd (keys (player_secrets s)))\<rparr>
        | RefereeGameState \<Rightarrow>
            set (keys (player_secrets s)) = set (keys (player_states s))
            \<and> s' = s\<lparr>player_color := None\<rparr>)"
proof -
  obtain u where u: "GameState_init s = Inl u \<or> GameState_init s = Inr ()"
    by (cases "GameState_init s") auto
  obtain v where v: "validate_player_secrets (board s) (player_secrets s) = Inl v
      \<or> validate_player_secrets (board s) (player_secrets s) = Inr ()"
    by (cases "validate_player_secrets (board s) (player_secrets s)") auto
  show ?thesis
    using u v
    by (cases "state_class s") (auto simp: build_def Let_def)
qed

lemma GameState_init_eq_Inr:
  "GameState_init s = Inr () \<longleftrightarrow>
     validate_spare_tile_gems (board s) (spare_tile s) = Inr ()
     \<and> validate_player_states (board s) (player_states s) = Inr ()
     \<and> 0 \<le> current_player_index s
     \<and> current_player_index s < int (length (player_states s))"
  by (cases "validate_spare_tile_gems (board s) (spare_tile s)";
      cases "validate_player_states (board s) (player_states s)")
     (simp_all add: GameState_init_def)

lemma player_color_of_update:
  assumes "s = s\<lparr>player_color := x\<rparr>"
  shows "player_color s = x"
  by (subst assms) simp

lemma restricted_owner:
  assumes "build s = Inr s" and "state_class s = RestrictedGameState"
  shows "length (player_secrets s) = 1"
    and "player_color s = Some (hd (keys (player_secrets s)))"
    and "hd (keys (player_secrets s)) \<in> set (keys (player_states s))"
proof -
  from assms(1) have
    "case state_class s of
       RestrictedGameState \<Rightarrow>
         length (player_secrets s) = 1
         \<and> hd (keys (player_secrets s)) \<in> set (keys (player_states s))
         \<and> s = s\<lparr>player_color := Some (hd (keys (player_secrets s)))\<rparr>
     | RefereeGameState \<Rightarrow>
         set (keys (player_secrets s)) = set (keys (player_states s))
         \<and> s = s\<lparr>player_color := None\<rparr>"
    by (simp only: build_eq_Inr)
  then have *: "length (player_secrets s) = 1
         \<and> hd (keys (player_secrets s)) \<in> set (keys (player_states s))
         \<and> s = s\<lparr>player_color := Some (hd (keys (player_secrets s)))\<rparr>"
    by (simp only: assms(2) GameStateClass.case)
  from * show "length (player_secrets s) = 1" by (rule conjunct1)
  from * show "hd (keys (player_secrets s)) \<in> set (keys (player_states s))" by blast
  from * show "player_color s = Some (hd (keys (player_secrets s)))"
    by (blast intro: player_color_of_update)
qed

lemma referee_secret_keys:
  assumes "build s = Inr s" and "state_class s = RefereeGameState"
  shows "set (keys (player_secrets s)) = set (keys (player_states s))"
proof -
  from assms(1) have
    "case state_class s of
       RestrictedGameState \<Rightarrow>
         length (player_secrets s) = 1
         \<and> hd (keys (player_secrets s)) \<in> set (keys (player_states s))
         \<and> s = s\<lparr>player_color := Some (hd (keys (player_secrets s)))\<rparr>
     | RefereeGameState \<Rightarrow>
         set (keys (player_secrets s)) = set (keys (player_states s))
         \<and> s = s\<lparr>player_color := None\<rparr>"
    by (simp only: build_eq_Inr)
  then have "set (keys (player_secrets s)) = set (keys (player_states s))
         \<and> s = s\<lparr>player_color := None\<rparr>"
    by (simp only: assms(2) GameStateClass.case)
  then show ?thesis by (rule conjunct1)
qed

section \<open>Access to secrets\<close>

text \<open>
  Claim C7. In a restricted state, reading the secret of any colour but the owner's
  raises \<open>SecretAccessError\<close>, whether the colour is a player or not. In a referee's
  state, reading the secret of a colour of the secret mapping returns it, and reading
  that of any other colour raises \<open>KeyError\<close>.
\<close>

theorem secret_access_asymmetry:
  "(state_class s = RestrictedGameState \<and> GameState_valid s \<longrightarrow>
      (\<exists>owner. player_color s = Some owner \<and> keys (player_secrets s) = [owner]
         \<and> (\<forall>c. c \<noteq> owner \<longrightarrow> get_player_secret s c = Inl SecretAccessError)))
   \<and> (state_class s = RefereeGameState \<longrightarrow>
        (\<forall>c. (c \<in> set (keys (player_secrets s)) \<longrightarrow>
                (\<exists>sec. get_player_secret s c = Inr sec
                   \<and> map_of (player_secrets s) c = Some sec))
           \<and> (c \<notin> set (keys (player_secrets s)) \<longrightarrow>
                get_player_secret s c = Inl KeyError)))"
proof (intro conjI impI)
  assume a: "state_class s = RestrictedGameState \<and> GameState_valid s"
  then have b: "build s = Inr s"
    by (simp add: GameState_valid_def)
  have len: "length (player_secrets s) = 1"
    and own: "player_color s = Some (hd (keys (player_secrets s)))"
    using restricted_owner [OF b] a by blast+
  from len have ks: "keys (player_secrets s) = [hd (keys (player_secrets s))]"
    by (cases "player_secrets s") (auto simp: keys_def)
  have "\<forall>c. c \<noteq> hd (keys (player_secrets s)) \<longrightarrow> get_player_secret s c = Inl SecretAccessError"
    using a own by (simp add: get_player_secret_def can_get_player_secret_def)
  with own ks show "\<exists>owner. player_color s = Some owner \<and> keys (player_secrets s) = [owner]
         \<and> (\<forall>c. c \<noteq> owner \<longrightarrow> get_player_secret s c = Inl SecretAccessError)"
    by blast
next
  assume a: "state_class s = RefereeGameState"
  show "\<forall>c. (c \<in> set (keys (player_secrets s)) \<longrightarrow>
                (\<exists>sec. get_player_secret s c = Inr sec
                   \<and> map_of (player_secrets s) c = Some sec))
           \<and> (c \<notin> set (keys (player_secrets s)) \<longrightarrow>
                get_player_secret s c = Inl KeyError)"
  proof (intro allI conjI impI)
    fix c
    assume "c \<in> set (keys (player_secrets s))"
    then obtain sec where "map_of (player_secrets s) c = Some sec"
      by (cases "map_of (player_secrets s) c") (auto simp: keys_def map_of_eq_None_iff)
    then show "\<exists>sec. get_player_secret s c = Inr sec \<and> map_of (player_secrets s) c = Some sec"
      using a by (simp add: get_player_secret_def dict_lookup_def)
  next
    fix c
    assume "c \<notin> set (keys (player_secrets s))"
    then have "map_of (player_secrets s) c = None"
      by (simp add: keys_def map_of_eq_None_iff)
    then show "get_player_secret s c = Inl KeyError"
      using a by (simp add: get_player_secret_def dict_lookup_def)
  qed
qed

theorem secret_access_asymmetry_witness:
  "GameState_valid example_restricted_state
   \<and> get_player_secret example_restricted_state ''green'' = Inl SecretAccessError
   \<and> get_player_secret example_restricted_state ''purple'' = Inl SecretAccessError
   \<and> get_player_secret example_state ''green'' = Inr (PlayerSecret (Coord 1 1) False 0)
   \<and> get_player_secret example_state ''purple'' = Inl KeyError"
proof -
  have r: "state_class example_restricted_state = RestrictedGameState"
    and o: "player_color example_restricted_state = Some ''red''"
    and f: "state_class example_state = RefereeGameState"
    and k: "keys (player_secrets example_state) = [''red'', ''green'', ''blue'']"
    and m: "map_of (player_secrets example_state) ''green'' = Some (PlayerSecret (Coord 1 1) False 0)"
    by (simp_all add: example_restricted_state_def example_state_def keys_def)
  show ?thesis
    using secret_access_asymmetry [of example_restricted_state]
      secret_access_asymmetry [of example_state]
      example_restricted_state_valid r o f k m
    by auto
qed

section \<open>Ejecting an absent player\<close>

text \<open>
  Claim C10. On a referee's state, \<open>eject_player\<close> with a colour that is not in the player
  list returns the state as it is and raises nothing, also when one player is left: the
  membership test comes before the test for the last player.
\<close>

theorem eject_absent_player_unchanged:
  "state_class s = RefereeGameState \<Longrightarrow> c \<notin> set (player_colors s) \<Longrightarrow> eject_player s c = Inr s"
  by (simp add: eject_player_def)

theorem eject_absent_player_unchanged_witness:
  "num_players example_single_state = 1
   \<and> eject_player example_single_state ''purple'' = Inr example_single_state
   \<and> eject_player example_state ''purple'' = Inr example_state"
proof -
  have a: "state_class example_single_state = RefereeGameState"
    and b: "''purple'' \<notin> set (player_colors example_single_state)"
    and c: "state_class example_state = RefereeGameState"
    and d: "''purple'' \<notin> set (player_colors example_state)"
    and n: "num_players example_single_state = 1"
    by (simp_all add: example_single_state_def example_state_def example_players_def
          player_colors_def keys_def num_players_def)
  show ?thesis
    using eject_absent_player_unchanged [OF a b] eject_absent_player_unchanged [OF c d] n
    by simp
qed

section \<open>What the constructors check\<close>

lemma assert_in_bounds_eq:
  "assert_in_bounds b c = (if in_bounds b c then Inr () else Inl IndexError)"
  by (auto simp: assert_in_bounds_def in_bounds_def)

lemma assert_in_bounds_Inr: "assert_in_bounds b c = Inr () \<longleftrightarrow> in_bounds b c"
  by (simp add: assert_in_bounds_eq)

lemma validate_player_states_Inr:
  "validate_player_states b ps = Inr () \<longleftrightarrow>
     ps \<noteq> [] \<and> (\<forall>p \<in> set (values_of ps). player_state_ok b p)"
proof -
  have "\<And>p. (bind_result (assert_in_bounds b (location p)) (\<lambda>_.
                 bind_result (assert_in_bounds b (home_location p)) (\<lambda>_.
                   let c = col (home_location p); r = row (home_location p)
                   in if is_moveable_row_or_column c \<or> is_moveable_row_or_column r
                      then Inl ValueError else Inr ())) = Inr ()) = player_state_ok b p"
    by (simp add: assert_in_bounds_eq player_state_ok_def Let_def)
  then show ?thesis
    by (cases ps) (simp_all add: validate_player_states_def for_each_Inr)
qed

lemma validate_player_secrets_Inr:
  "validate_player_secrets b secs = Inr () \<longleftrightarrow>
     (\<forall>sec \<in> set (values_of secs). in_bounds b (treasure_location sec))"
  by (simp add: validate_player_secrets_def for_each_Inr assert_in_bounds_Inr)

lemma build_eq:
  "build s = Inr s' \<longleftrightarrow>
     validate_spare_tile_gems (board s) (spare_tile s) = Inr ()
     \<and> player_states s \<noteq> []
     \<and> (\<forall>p \<in> set (values_of (player_states s)). player_state_ok (board s) p)
     \<and> 0 \<le> current_player_index s
     \<and> current_player_index s < int (length (player_states s))
     \<and> (\<forall>sec \<in> set (values_of (player_secrets s)). in_bounds (board s) (treasure_location sec))
     \<and> class_ok s
     \<and> s' = s\<lparr>player_color := owner_of s\<rparr>"
  unfolding build_eq_Inr GameState_init_eq_Inr validate_player_states_Inr
    validate_player_secrets_Inr class_ok_def owner_of_def
  by (cases "state_class s") auto

lemma build_self:
  assumes "build s = Inr s"
  shows "validate_spare_tile_gems (board s) (spare_tile s) = Inr ()"
    and "player_states s \<noteq> []"
    and "\<forall>p \<in> set (values_of (player_states s)). player_state_ok (board s) p"
    and "0 \<le> current_player_index s"
    and "current_player_index s < int (length (player_states s))"
    and "\<forall>sec \<in> set (values_of (player_secrets s)). in_bounds (board s) (treasure_location sec)"
    and "class_ok s"
    and "player_color s = owner_of s"
proof -
  note * = assms [unfolded build_eq]
  from * show "validate_spare_tile_gems (board s) (spare_tile s) = Inr ()" by blast
  from * show "player_states s \<noteq> []" by blast
  from * show "\<forall>p \<in> set (values_of (player_states s)). player_state_ok (board s) p" by blast
  from * show "0 \<le> current_player_index s" by blast
  from * show "current_player_index s < int (length (player_states s))" by blast
  from * show "\<forall>sec \<in> set (values_of (player_secrets s)). in_bounds (board s) (treasure_location sec)"
    by blast
  from * show "class_ok s" by blast
  from * have "s = s\<lparr>player_color := owner_of s\<rparr>" by blast
  then show "player_color s = owner_of s" by (rule player_color_of_update)
qed

text \<open>Building from fields that pass every check returns the state they make up.\<close>

lemma build_ok:
  assumes "validate_spare_tile_gems (board t) (spare_tile t) = Inr ()"
    and "player_states t \<noteq> []"
    and "\<forall>p \<in> set (values_of (player_states t)). player_state_ok (board t) p"
    and "0 \<le> current_player_index t"
    and "current_player_index t < int (length (player_states t))"
    and "\<forall>sec \<in> set (values_of (player_secrets t)). in_bounds (board t) (treasure_location sec)"
    and "class_ok t"
    and "player_color t = owner_of t"
  shows "build t = Inr t"
proof -
  have "t = t\<lparr>player_color := owner_of t\<rparr>"
    by (simp add: assms(8) [symmetric])
  with assms(1-7) show ?thesis
    by (simp only: build_eq simp_thms)
qed

section \<open>Lists and dicts\<close>

lemma length_delete_present:
  "distinct (map fst xs) \<Longrightarrow> k \<in> fst ` set xs \<Longrightarrow> Suc (length (AList.delete k xs)) = length xs"
proof (induction xs)
  case Nil
  then show ?case by simp
next
  case (Cons x xs)
  show ?case
  proof (cases "fst x = k")
    case True
    with Cons.prems(1) have "k \<notin> fst ` set xs" by auto
    with True show ?thesis by (cases x) simp
  next
    case False
    with Cons show ?thesis by (cases x) auto
  qed
qed

lemma set_delete_subset: "set (AList.delete k xs) \<subseteq> set xs"
  by (auto simp: AList.delete_eq)

lemma keys_delete: "set (keys (AList.delete k xs)) = set (keys xs) - {k}"
  by (simp add: keys_def delete_keys)

lemma distinct_keys_delete: "distinct (keys xs) \<Longrightarrow> distinct (keys (AList.delete k xs))"
  by (simp add: keys_def distinct_delete)

lemma index_of_bounds: "x \<in> set xs \<Longrightarrow> 0 \<le> index_of xs x \<and> index_of xs x < int (length xs)"
  by (induction xs) (auto simp: index_of_def)

lemma index_of_nth: "distinct xs \<Longrightarrow> i < length xs \<Longrightarrow> index_of xs (xs ! i) = int i"
proof (induction xs arbitrary: i)
  case Nil
  then show ?case by simp
next
  case (Cons x xs)
  then show ?case by (cases i) (auto simp: index_of_def)
qed

lemma dict_lookup_present:
  "k \<in> set (keys d) \<Longrightarrow> \<exists>v. dict_lookup d k = Inr v \<and> map_of d k = Some v"
  by (cases "map_of d k") (auto simp: dict_lookup_def keys_def map_of_eq_None_iff)

lemma dict_lookup_absent: "k \<notin> set (keys d) \<Longrightarrow> dict_lookup d k = Inl KeyError"
proof -
  assume "k \<notin> set (keys d)"
  then have "map_of d k = None"
    by (simp add: keys_def map_of_eq_None_iff)
  then show ?thesis by (simp add: dict_lookup_def)
qed

lemma dict_lookup_Inr: "dict_lookup d k = Inr v \<longleftrightarrow> map_of d k = Some v"
  by (cases "map_of d k") (auto simp: dict_lookup_def)

lemma list_index_in_range:
  "0 \<le> i \<Longrightarrow> i < int (length xs) \<Longrightarrow> list_index xs i = Inr (xs ! nat i)"
  by (simp add: list_index_def)

section \<open>The current player of a game state\<close>

lemma GameState_valid_build: "GameState_valid s \<Longrightarrow> build s = Inr s"
  by (simp add: GameState_valid_def)

lemma current_player_color_valid:
  assumes "GameState_valid s"
  shows "current_player_color s = Inr (player_colors s ! nat (current_player_index s))"
    and "player_colors s ! nat (current_player_index s) \<in> set (player_colors s)"
proof -
  note b = build_self [OF GameState_valid_build [OF assms]]
  have len: "length (player_colors s) = length (player_states s)"
    by (simp add: player_colors_def keys_def)
  show "current_player_color s = Inr (player_colors s ! nat (current_player_index s))"
    using b(4,5) len by (simp add: current_player_color_def list_index_in_range)
  show "player_colors s ! nat (current_player_index s) \<in> set (player_colors s)"
    using b(4,5) len by (intro nth_mem) simp
qed

section \<open>Ejection\<close>

lemma referee_keys:
  assumes "GameState_valid s" and "state_class s = RefereeGameState"
  shows "set (keys (player_secrets s)) = set (keys (player_states s))"
    and "player_color s = None"
  using build_self(7,8) [OF GameState_valid_build [OF assms(1)]] assms(2)
  by (simp_all add: class_ok_def owner_of_def)

lemma eject_build:
  assumes v: "GameState_valid s" and r: "state_class s = RefereeGameState"
    and c: "c \<in> set (player_colors s)" and n: "num_players s \<noteq> 1"
    and i: "0 \<le> i" "i < num_players s - 1"
  shows "GameState_valid
           (s\<lparr>player_states := AList.delete c (player_states s),
              player_secrets := AList.delete c (player_secrets s),
              current_player_index := i\<rparr>)"
proof -
  let ?t = "s\<lparr>player_states := AList.delete c (player_states s),
              player_secrets := AList.delete c (player_secrets s),
              current_player_index := i\<rparr>"
  note b = build_self [OF GameState_valid_build [OF v]]
  have d: "distinct (keys (player_states s))" "distinct (keys (player_secrets s))"
    and bv: "Board_valid (board s)" and tv: "Tile_valid (spare_tile s)"
    using v by (simp_all add: GameState_valid_def)
  have len: "Suc (length (AList.delete c (player_states s))) = length (player_states s)"
    using d(1) c by (intro length_delete_present) (simp_all add: keys_def player_colors_def)
  have "build ?t = Inr ?t"
  proof (rule build_ok)
    show "validate_spare_tile_gems (board ?t) (spare_tile ?t) = Inr ()"
      using b(1) by simp
    show "player_states ?t \<noteq> []"
      using len i by (auto simp: num_players_def)
    show "\<forall>p \<in> set (values_of (player_states ?t)). player_state_ok (board ?t) p"
      using b(3) set_delete_subset [of c "player_states s"] by (auto simp: values_of_def)
    show "0 \<le> current_player_index ?t"
      using i by simp
    show "current_player_index ?t < int (length (player_states ?t))"
      using i len by (simp add: num_players_def)
    show "\<forall>sec \<in> set (values_of (player_secrets ?t)). in_bounds (board ?t) (treasure_location sec)"
      using b(6) set_delete_subset [of c "player_secrets s"] by (auto simp: values_of_def)
    show "class_ok ?t"
      using referee_keys(1) [OF v r] r by (simp add: class_ok_def keys_delete)
    show "player_color ?t = owner_of ?t"
      using referee_keys(2) [OF v r] r by (simp add: owner_of_def)
  qed
  then show ?thesis
    using bv tv d by (simp add: GameState_valid_def distinct_keys_delete)
qed

lemma eject_player_present:
  assumes v: "GameState_valid s" and r: "state_class s = RefereeGameState"
    and c: "c \<in> set (player_colors s)" and n: "num_players s \<noteq> 1"
  defines "i \<equiv> (if index_of (player_colors s) c < current_player_index s
                  then current_player_index s - 1
                  else if index_of (player_colors s) c = current_player_index s
                          \<and> current_player_index s = num_players s - 1
                  then 0
                  else current_player_index s)"
  shows "eject_player s c =
           Inr (s\<lparr>player_states := AList.delete c (player_states s),
                  player_secrets := AList.delete c (player_secrets s),
                  current_player_index := i\<rparr>)"
    and "0 \<le> i" and "i < num_players s - 1"
proof -
  note b = build_self [OF GameState_valid_build [OF v]]
  have d: "distinct (keys (player_states s))"
    using v by (simp add: GameState_valid_def)
  have len: "Suc (length (AList.delete c (player_states s))) = length (player_states s)"
    using d c by (intro length_delete_present) (simp_all add: keys_def player_colors_def)
  have e: "0 \<le> index_of (player_colors s) c"
    "index_of (player_colors s) c < num_players s"
    using index_of_bounds [OF c] by (simp_all add: num_players_def player_colors_def keys_def)
  have n2: "2 \<le> num_players s"
  proof -
    have "length (player_states s) \<noteq> 0" "length (player_states s) \<noteq> 1"
      using n b(2) by (simp_all add: num_players_def)
    then have "2 \<le> length (player_states s)" by linarith
    then show ?thesis by (simp add: num_players_def)
  qed
  show i0: "0 \<le> i" and i1: "i < num_players s - 1"
    using e b(4,5) n2 by (auto simp: i_def num_players_def)
  have pop1: "dict_pop (player_states s) c = Inr (AList.delete c (player_states s))"
    using c by (simp add: dict_pop_def player_colors_def)
  have pop2: "dict_pop (player_secrets s) c = Inr (AList.delete c (player_secrets s))"
    using c referee_keys(1) [OF v r] by (simp add: dict_pop_def player_colors_def)
  have idx: "(if index_of (player_colors s) c < current_player_index s
              then current_player_index s - 1
              else if index_of (player_colors s) c = current_player_index s
                      \<and> int (length (AList.delete c (player_states s))) \<le> current_player_index s
              then 0
              else current_player_index s) = i"
    using len b(5) by (auto simp: i_def num_players_def)
  have "eject_player s c =
          build (s\<lparr>player_states := AList.delete c (player_states s),
                   player_secrets := AList.delete c (player_secrets s),
                   current_player_index := i\<rparr>)"
    using r c n by (simp add: eject_player_def pop1 pop2 Let_def idx)
  then show "eject_player s c =
           Inr (s\<lparr>player_states := AList.delete c (player_states s),
                  player_secrets := AList.delete c (player_secrets s),
                  current_player_index := i\<rparr>)"
    using eject_build [OF v r c n i0 i1] by (simp add: GameState_valid_def)
qed

lemma eject_current_player_eq:
  assumes v: "GameState_valid s" and r: "state_class s = RefereeGameState"
  shows "eject_current_player s = eject_player s (player_colors s ! nat (current_player_index s))"
proof (cases "num_players s = 1")
  case True
  then show ?thesis
    using r current_player_color_valid(2) [OF v]
    by (simp add: eject_current_player_def eject_player_def)
next
  case False
  let ?c = "player_colors s ! nat (current_player_index s)"
  note b = build_self [OF GameState_valid_build [OF v]]
  have d: "distinct (player_colors s)"
    using v by (simp add: GameState_valid_def player_colors_def)
  have "index_of (player_colors s) ?c = int (nat (current_player_index s))"
    using b(4,5) by (intro index_of_nth [OF d]) (simp add: player_colors_def keys_def)
  then have e: "index_of (player_colors s) ?c = current_player_index s"
    using b(4) by simp
  show ?thesis
    using r False current_player_color_valid [OF v]
    by (simp add: eject_current_player_def eject_player_def e Let_def)
qed

text \<open>
  Claim C5. On a restricted state both ejections raise \<open>PlayerListModificationError\<close>. On
  a referee's state, ejecting a player who is in the game raises \<open>NoMorePlayersError\<close>
  when that player is the only one, and otherwise returns the state without that
  player's state and secret, with a current-player index that is in range: one less
  than before when the ejected player came earlier in turn order, \<open>0\<close> when the ejected
  player was the current and the last one, and as before otherwise. Ejecting the current
  player is ejecting the player of the current colour.
\<close>

theorem ejection_semantics:
  "(state_class s = RestrictedGameState \<longrightarrow>
      eject_current_player s = Inl PlayerListModificationError
      \<and> eject_player s c = Inl PlayerListModificationError)
   \<and> (state_class s = RefereeGameState \<and> GameState_valid s \<longrightarrow>
        (\<exists>current. current_player_color s = Inr current \<and> current \<in> set (player_colors s)
           \<and> eject_current_player s = eject_player s current))
   \<and> (state_class s = RefereeGameState \<and> GameState_valid s \<and> c \<in> set (player_colors s) \<longrightarrow>
        (if num_players s = 1 then eject_player s c = Inl NoMorePlayersError
         else \<exists>i. eject_player s c =
                     Inr (s\<lparr>player_states := AList.delete c (player_states s),
                            player_secrets := AList.delete c (player_secrets s),
                            current_player_index := i\<rparr>)
                \<and> map_of (AList.delete c (player_states s)) c = None
                \<and> map_of (AList.delete c (player_secrets s)) c = None
                \<and> 0 \<le> i \<and> i < num_players s - 1
                \<and> i = (if index_of (player_colors s) c < current_player_index s
                        then current_player_index s - 1
                        else if index_of (player_colors s) c = current_player_index s
                                \<and> current_player_index s = num_players s - 1
                        then 0
                        else current_player_index s)
                \<and> GameState_valid
                     (s\<lparr>player_states := AList.delete c (player_states s),
                        player_secrets := AList.delete c (player_secrets s),
                        current_player_index := i\<rparr>)))"
proof (intro conjI impI)
  assume "state_class s = RestrictedGameState"
  then show "eject_current_player s = Inl PlayerListModificationError"
    and "eject_player s c = Inl PlayerListModificationError"
    by (simp_all add: eject_current_player_def eject_player_def)
next
  assume a: "state_class s = RefereeGameState \<and> GameState_valid s"
  then show "\<exists>current. current_player_color s = Inr current \<and> current \<in> set (player_colors s)
           \<and> eject_current_player s = eject_player s current"
    using current_player_color_valid [of s] eject_current_player_eq [of s] by blast
next
  assume a: "state_class s = RefereeGameState \<and> GameState_valid s \<and> c \<in> set (player_colors s)"
  then have r: "state_class s = RefereeGameState" and v: "GameState_valid s"
    and c: "c \<in> set (player_colors s)"
    by simp_all
  show "if num_players s = 1 then eject_player s c = Inl NoMorePlayersError
         else \<exists>i. eject_player s c =
                     Inr (s\<lparr>player_states := AList.delete c (player_states s),
                            player_secrets := AList.delete c (player_secrets s),
                            current_player_index := i\<rparr>)
                \<and> map_of (AList.delete c (player_states s)) c = None
                \<and> map_of (AList.delete c (player_secrets s)) c = None
                \<and> 0 \<le> i \<and> i < num_players s - 1
                \<and> i = (if index_of (player_colors s) c < current_player_index s
                        then current_player_index s - 1
                        else if index_of (player_colors s) c = current_player_index s
                                \<and> current_player_index s = num_players s - 1
                        then 0
                        else current_player_index s)
                \<and> GameState_valid
                     (s\<lparr>player_states := AList.delete c (player_states s),
                        player_secrets := AList.delete c (player_secrets s),
                        current_player_index := i\<rparr>)"
  proof (cases "num_players s = 1")
    case True
    then show ?thesis
      using r c by (simp add: eject_player_def)
  next
    case False
    note p = eject_player_present [OF v r c False]
    have "map_of (AList.delete c (player_states s)) c = None"
      "map_of (AList.delete c (player_secrets s)) c = None"
      by (simp_all add: delete_conv')
    with False p eject_build [OF v r c False p(2,3)] show ?thesis
      by (simp only: if_False) blast
  qed
qed

theorem ejection_semantics_witness:
  "eject_player example_restricted_state ''red'' = Inl PlayerListModificationError
   \<and> eject_current_player example_restricted_state = Inl PlayerListModificationError
   \<and> eject_player example_single_state ''green'' = Inl NoMorePlayersError
   \<and> eject_current_player example_blue_turn_state = eject_player example_blue_turn_state ''blue''
   \<and> eject_player example_blue_turn_state ''blue'' =
       Inr (example_blue_turn_state
              \<lparr>player_states := AList.delete ''blue'' (player_states example_blue_turn_state),
                player_secrets := AList.delete ''blue'' (player_secrets example_blue_turn_state),
                current_player_index := 0\<rparr>)
   \<and> eject_player example_blue_turn_state ''red'' =
       Inr (example_blue_turn_state
              \<lparr>player_states := AList.delete ''red'' (player_states example_blue_turn_state),
                player_secrets := AList.delete ''red'' (player_secrets example_blue_turn_state),
                current_player_index := 1\<rparr>)"
proof -
  have r: "state_class example_restricted_state = RestrictedGameState"
    by (simp add: example_restricted_state_def)
  have s1: "state_class example_single_state = RefereeGameState"
    "''green'' \<in> set (player_colors example_single_state)"
    "num_players example_single_state = 1"
    by (simp_all add: example_single_state_def player_colors_def keys_def num_players_def)
  have s2: "state_class example_blue_turn_state = RefereeGameState"
    "player_colors example_blue_turn_state = [''red'', ''green'', ''blue'']"
    "num_players example_blue_turn_state = 3"
    "current_player_index example_blue_turn_state = 2"
    by (simp_all add: example_blue_turn_state_def example_state_def example_players_def
          player_colors_def keys_def num_players_def)
  have i: "index_of [''red'', ''green'', ''blue''] ''blue'' = 2"
    "index_of [''red'', ''green'', ''blue''] ''red'' = 0"
    by (simp_all add: index_of_def)
  have c: "current_player_color example_blue_turn_state = Inr ''blue''"
    by (simp add: current_player_color_def s2 list_index_def)
  from ejection_semantics [of example_restricted_state "''red''"] r
  have 1: "eject_player example_restricted_state ''red'' = Inl PlayerListModificationError"
    "eject_current_player example_restricted_state = Inl PlayerListModificationError"
    by simp_all
  from ejection_semantics [of example_single_state "''green''"] s1 example_single_state_valid
  have 2: "eject_player example_single_state ''green'' = Inl NoMorePlayersError"
    by simp
  from ejection_semantics [of example_blue_turn_state "''blue''"] s2 i c
    example_blue_turn_state_valid
  have 3: "eject_current_player example_blue_turn_state
             = eject_player example_blue_turn_state ''blue''"
    "eject_player example_blue_turn_state ''blue'' =
       Inr (example_blue_turn_state
              \<lparr>player_states := AList.delete ''blue'' (player_states example_blue_turn_state),
                player_secrets := AList.delete ''blue'' (player_secrets example_blue_turn_state),
                current_player_index := 0\<rparr>)"
    by simp_all
  from ejection_semantics [of example_blue_turn_state "''red''"] s2 i
    example_blue_turn_state_valid
  have 4: "eject_player example_blue_turn_state ''red'' =
       Inr (example_blue_turn_state
              \<lparr>player_states := AList.delete ''red'' (player_states example_blue_turn_state),
                player_secrets := AList.delete ''red'' (player_secrets example_blue_turn_state),
                current_player_index := 1\<rparr>)"
    by simp
  from 1 2 3 4 show ?thesis by simp
qed

section \<open>A new goal for the current player\<close>

lemma for_each_in_bounds:
  "for_each (\<lambda>x. assert_in_bounds b (f x)) xs =
     (if \<forall>x \<in> set xs. in_bounds b (f x) then Inr () else Inl IndexError)"
  by (induction xs) (simp_all add: assert_in_bounds_eq)

lemma validate_player_secrets_eq:
  "validate_player_secrets b secs =
     (if \<forall>sec \<in> set (values_of secs). in_bounds b (treasure_location sec) then Inr ()
      else Inl IndexError)"
  by (simp add: validate_player_secrets_def for_each_in_bounds)

lemma keys_update_present: "k \<in> set (keys d) \<Longrightarrow> keys (AList.update k v d) = keys d"
  by (simp add: keys_def update_keys)

lemma length_update_present: "k \<in> set (keys d) \<Longrightarrow> length (AList.update k v d) = length d"
  using keys_update_present [of k d v] by (metis keys_def length_map)

lemma values_update_subset: "set (values_of (AList.update k v d)) \<subseteq> insert v (set (values_of d))"
  by (induction d) (auto simp: values_of_def)

lemma values_update_present:
  "k \<in> set (keys d) \<Longrightarrow> v \<in> set (values_of (AList.update k v d))"
  by (induction d) (auto simp: values_of_def keys_def)

lemma map_of_values: "map_of d k = Some v \<Longrightarrow> v \<in> set (values_of d)"
  by (induction d) (auto simp: values_of_def split: if_splits)

text \<open>What \<open>build\<close> returns when only a secret of a present colour was replaced.\<close>

lemma build_new_secret:
  assumes v: "GameState_valid s" and k: "c \<in> set (keys (player_secrets s))"
  shows "build (s\<lparr>player_secrets := AList.update c sec' (player_secrets s)\<rparr>) =
           (if in_bounds (board s) (treasure_location sec')
            then Inr (s\<lparr>player_secrets := AList.update c sec' (player_secrets s)\<rparr>)
            else Inl IndexError)"
proof -
  let ?t = "s\<lparr>player_secrets := AList.update c sec' (player_secrets s)\<rparr>"
  note b = build_self [OF GameState_valid_build [OF v]]
  have ks: "keys (player_secrets ?t) = keys (player_secrets s)"
    and len: "length (player_secrets ?t) = length (player_secrets s)"
    using k by (simp_all add: keys_update_present length_update_present)
  have ck: "class_ok ?t"
    using b(7) ks len by (cases "state_class s") (simp_all add: class_ok_def)
  have ow: "player_color ?t = owner_of ?t"
    using b(8) ks by (cases "state_class s") (simp_all add: owner_of_def)
  have init: "GameState_init ?t = Inr ()"
    using b(1-5) by (simp add: GameState_init_eq_Inr validate_player_states_Inr)
  show ?thesis
  proof (cases "in_bounds (board s) (treasure_location sec')")
    case True
    have "\<forall>x \<in> set (values_of (player_secrets ?t)). in_bounds (board ?t) (treasure_location x)"
      using b(6) True values_update_subset [of c sec' "player_secrets s"] by auto
    then have "build ?t = Inr ?t"
      using b(1-5) ck ow by (intro build_ok) simp_all
    with True show ?thesis by simp
  next
    case False
    have "sec' \<in> set (values_of (player_secrets ?t))"
      using k by (simp add: values_update_present)
    with False have "validate_player_secrets (board ?t) (player_secrets ?t) = Inl IndexError"
      by (auto simp: validate_player_secrets_eq)
    then have "build ?t = Inl IndexError"
      using init ck by (cases "state_class s") (simp_all add: build_def class_ok_def)
    with False show ?thesis by simp
  qed
qed

lemma current_player_state_valid:
  assumes "GameState_valid s"
  shows "\<exists>p. current_player_state s = Inr p
           \<and> map_of (player_states s) (player_colors s ! nat (current_player_index s)) = Some p"
  using current_player_color_valid [OF assms]
    dict_lookup_present [of "player_colors s ! nat (current_player_index s)" "player_states s"]
  by (auto simp: current_player_state_def player_colors_def)

lemma visible_secret:
  assumes v: "GameState_valid s" and c: "can_get_player_secret s c"
  shows "c \<in> set (keys (player_secrets s))"
    and "get_player_secret s c = dict_lookup (player_secrets s) c"
proof -
  note b = build_self [OF GameState_valid_build [OF v]]
  show "c \<in> set (keys (player_secrets s))"
  proof (cases "state_class s")
    case RestrictedGameState
    with c b(8) have "c = hd (keys (player_secrets s))"
      by (simp add: can_get_player_secret_def owner_of_def)
    moreover from RestrictedGameState b(7) have "length (player_secrets s) = 1"
      by (simp add: class_ok_def)
    ultimately show ?thesis
      by (cases "player_secrets s") (simp_all add: keys_def)
  next
    case RefereeGameState
    with c show ?thesis by (simp add: can_get_player_secret_def)
  qed
  show "get_player_secret s c = dict_lookup (player_secrets s) c"
  proof (cases "state_class s")
    case RestrictedGameState
    with c have "player_color s = Some c"
      by (simp add: can_get_player_secret_def)
    with RestrictedGameState c show ?thesis
      by (simp add: get_player_secret_def)
  next
    case RefereeGameState
    then show ?thesis by (simp add: get_player_secret_def)
  qed
qed

text \<open>
  Claim C9, as amended. Let \<open>c\<close> be the current colour and \<open>p\<close> its player state.
  \<open>set_current_player_new_goal\<close> returns the state as it is unless the state can read
  the secret of \<open>c\<close> and \<open>p\<close> stands on the treasure location of that secret. Otherwise,
  when the new goal is the home of \<open>p\<close>, only the secret of \<open>c\<close> changes: it is going home,
  with one more treasure and the old treasure location; when the new goal is another
  position of the board, only the secret of \<open>c\<close> changes: its treasure location is the new
  goal, with one more treasure (and not going home); and when the new goal is another
  position outside the board, the constructor raises \<open>IndexError\<close>.
\<close>

theorem set_new_goal_effect:
  assumes "GameState_valid s"
  shows "\<exists>c p. current_player_color s = Inr c \<and> map_of (player_states s) c = Some p
    \<and> (case (if can_get_player_secret s c then map_of (player_secrets s) c else None) of
         None \<Rightarrow> set_current_player_new_goal s g = Inr s
       | Some sec \<Rightarrow>
           if location p \<noteq> treasure_location sec
           then set_current_player_new_goal s g = Inr s
           else if g = home_location p
           then set_current_player_new_goal s g =
                  Inr (s\<lparr>player_secrets :=
                           AList.update c
                             (PlayerSecret (treasure_location sec) True (treasure_count sec + 1))
                             (player_secrets s)\<rparr>)
           else if in_bounds (board s) g
           then set_current_player_new_goal s g =
                  Inr (s\<lparr>player_secrets :=
                           AList.update c (PlayerSecret g False (treasure_count sec + 1))
                             (player_secrets s)\<rparr>)
           else set_current_player_new_goal s g = Inl IndexError)"
proof -
  let ?c = "player_colors s ! nat (current_player_index s)"
  note b = build_self [OF GameState_valid_build [OF assms]]
  have cc: "current_player_color s = Inr ?c"
    by (rule current_player_color_valid(1) [OF assms])
  obtain p where p: "current_player_state s = Inr p" "map_of (player_states s) ?c = Some p"
    using current_player_state_valid [OF assms] by blast
  have lp: "dict_lookup (player_states s) ?c = Inr p"
    using p(2) by (simp add: dict_lookup_Inr)
  have "case (if can_get_player_secret s ?c then map_of (player_secrets s) ?c else None) of
         None \<Rightarrow> set_current_player_new_goal s g = Inr s
       | Some sec \<Rightarrow>
           if location p \<noteq> treasure_location sec
           then set_current_player_new_goal s g = Inr s
           else if g = home_location p
           then set_current_player_new_goal s g =
                  Inr (s\<lparr>player_secrets :=
                           AList.update ?c
                             (PlayerSecret (treasure_location sec) True (treasure_count sec + 1))
                             (player_secrets s)\<rparr>)
           else if in_bounds (board s) g
           then set_current_player_new_goal s g =
                  Inr (s\<lparr>player_secrets :=
                           AList.update ?c (PlayerSecret g False (treasure_count sec + 1))
                             (player_secrets s)\<rparr>)
           else set_current_player_new_goal s g = Inl IndexError"
  proof (cases "can_get_player_secret s ?c")
    case False
    then show ?thesis
      by (simp add: set_current_player_new_goal_def cc)
  next
    case True
    note vs = visible_secret [OF assms True]
    obtain sec where sec: "dict_lookup (player_secrets s) ?c = Inr sec"
      "map_of (player_secrets s) ?c = Some sec"
      using dict_lookup_present [OF vs(1)] by blast
    have tb: "in_bounds (board s) (treasure_location sec)"
      using b(6) map_of_values [OF sec(2)] by blast
    have at: "is_current_player_at_treasure s = Inr (location p = treasure_location sec)"
      by (simp add: is_current_player_at_treasure_def p(1) get_current_player_treasure_location_def
            get_current_player_secret_def cc vs(2) sec(1))
    show ?thesis
    proof (cases "location p = treasure_location sec")
      case False
      with True show ?thesis
        by (simp add: set_current_player_new_goal_def cc at sec(2))
    next
      case at_treasure: True
      show ?thesis
      proof (cases "g = home_location p")
        case True
        have "set_current_player_new_goal s g =
                build (s\<lparr>player_secrets :=
                           AList.update ?c (set_is_going_home sec) (player_secrets s)\<rparr>)"
          using \<open>can_get_player_secret s ?c\<close> at_treasure True
          by (simp add: set_current_player_new_goal_def cc at lp sec(1))
        then show ?thesis
          using \<open>can_get_player_secret s ?c\<close> at_treasure True tb
          by (simp add: build_new_secret [OF assms vs(1)] set_is_going_home_def sec(2))
      next
        case False
        have "set_current_player_new_goal s g =
                build (s\<lparr>player_secrets :=
                           AList.update ?c (set_new_goal sec g) (player_secrets s)\<rparr>)"
          using \<open>can_get_player_secret s ?c\<close> at_treasure False
          by (simp add: set_current_player_new_goal_def cc at lp sec(1))
        then show ?thesis
          using \<open>can_get_player_secret s ?c\<close> at_treasure False
          by (simp add: build_new_secret [OF assms vs(1)] set_new_goal_def sec(2))
      qed
    qed
  qed
  with cc p(2) show ?thesis by blast
qed

theorem set_new_goal_effect_witness:
  "GameState_valid example_green_turn_state
   \<and> set_current_player_new_goal example_green_turn_state (Coord 2 0) =
       Inr (example_green_turn_state
              \<lparr>player_secrets :=
                 AList.update ''green'' (PlayerSecret (Coord 2 0) False 1)
                   (player_secrets example_green_turn_state)\<rparr>)
   \<and> set_current_player_new_goal example_green_turn_state (Coord 1 1) =
       Inr (example_green_turn_state
              \<lparr>player_secrets :=
                 AList.update ''green'' (PlayerSecret (Coord 1 1) True 1)
                   (player_secrets example_green_turn_state)\<rparr>)
   \<and> set_current_player_new_goal example_restricted_state (Coord 2 0) =
       Inr example_restricted_state"
proof -
  have g: "current_player_color example_green_turn_state = Inr ''green''"
    "map_of (player_states example_green_turn_state) ''green'' =
       Some (PlayerState (Coord 1 1) (Coord 1 1) (0, 255, 0) ''bob'')"
    "can_get_player_secret example_green_turn_state ''green''"
    "map_of (player_secrets example_green_turn_state) ''green'' =
       Some (PlayerSecret (Coord 1 1) False 0)"
    "in_bounds (board example_green_turn_state) (Coord 2 0)"
    by code_simp+
  have r: "current_player_color example_restricted_state = Inr ''red''"
    "map_of (player_states example_restricted_state) ''red'' =
       Some (PlayerState (Coord 1 1) (Coord 0 0) (255, 0, 0) ''ann'')"
    "can_get_player_secret example_restricted_state ''red''"
    "map_of (player_secrets example_restricted_state) ''red'' =
       Some (PlayerSecret (Coord 2 2) False 0)"
    by code_simp+
  from set_new_goal_effect [OF example_green_turn_state_valid, of "Coord 2 0"] g
  have 1: "set_current_player_new_goal example_green_turn_state (Coord 2 0) =
       Inr (example_green_turn_state
              \<lparr>player_secrets :=
                 AList.update ''green'' (PlayerSecret (Coord 2 0) False 1)
                   (player_secrets example_green_turn_state)\<rparr>)"
    by auto
  from set_new_goal_effect [OF example_green_turn_state_valid, of "Coord 1 1"] g
  have 2: "set_current_player_new_goal example_green_turn_state (Coord 1 1) =
       Inr (example_green_turn_state
              \<lparr>player_secrets :=
                 AList.update ''green'' (PlayerSecret (Coord 1 1) True 1)
                   (player_secrets example_green_turn_state)\<rparr>)"
    by auto
  from set_new_goal_effect [OF example_restricted_state_valid, of "Coord 2 0"] r
  have 3: "set_current_player_new_goal example_restricted_state (Coord 2 0) =
       Inr example_restricted_state"
    by auto
  from 1 2 3 example_green_turn_state_valid show ?thesis by simp
qed

text \<open>
  Claim C9 as it is stated fails for a new goal outside the board: \<open>green\<close> stands on its
  treasure in a state that can read its secret, the new goal is not its home, and the
  call raises \<open>IndexError\<close> instead of returning a state with the new treasure location.
\<close>

theorem set_new_goal_out_of_bounds_counterexample:
  "GameState_valid example_green_turn_state
   \<and> current_player_color example_green_turn_state = Inr ''green''
   \<and> can_get_player_secret example_green_turn_state ''green''
   \<and> is_current_player_at_treasure example_green_turn_state = Inr True
   \<and> map_of (player_states example_green_turn_state) ''green'' =
       Some (PlayerState (Coord 1 1) (Coord 1 1) (0, 255, 0) ''bob'')
   \<and> set_current_player_new_goal example_green_turn_state (Coord 5 5) = Inl IndexError"
  by code_simp

section \<open>Rotating the spare tile\<close>

lemma Tile_valid_iff:
  "Tile_valid t \<longleftrightarrow> 0 \<le> rotation t \<and> rotation t \<le> 3 \<and> fst (gems t) \<le> snd (gems t)"
proof -
  have "(gems t = (min (fst (gems t)) (snd (gems t)), max (fst (gems t)) (snd (gems t))))
          = (fst (gems t) \<le> snd (gems t))"
    by (cases "gems t") (auto simp: min_def max_def)
  moreover have "(\<lparr>shape = shape t, rotation = rotation t, gems = g\<rparr> = t) = (gems t = g)" for g
    by (cases t) auto
  ultimately show ?thesis
    by (auto simp: Tile_valid_def Tile_init_def Let_def)
qed

lemma Tile_rotate_valid:
  assumes "Tile_valid t" and "0 \<le> r" and "r \<le> 3"
  shows "Tile_rotate t r = Inr (t\<lparr>rotation := r\<rparr>)"
    and "Tile_valid (t\<lparr>rotation := r\<rparr>)"
proof -
  from assms(1) have g: "fst (gems t) \<le> snd (gems t)"
    by (simp add: Tile_valid_iff)
  then have "(min (fst (gems t)) (snd (gems t)), max (fst (gems t)) (snd (gems t))) = gems t"
    by (cases "gems t") (simp add: min_def max_def)
  then show "Tile_rotate t r = Inr (t\<lparr>rotation := r\<rparr>)"
    using assms(2,3) by (cases t) (simp add: Tile_rotate_def Tile_init_def Let_def)
  show "Tile_valid (t\<lparr>rotation := r\<rparr>)"
    using g assms(2,3) by (simp add: Tile_valid_iff)
qed

lemma validate_spare_tile_gems_rotation:
  "validate_spare_tile_gems b (t\<lparr>rotation := r\<rparr>) = validate_spare_tile_gems b t"
  by (simp add: validate_spare_tile_gems_def validate_tile_gems_def)


lemma rotate_spare_tile_valid:
  assumes v: "GameState_valid s" and k: "kind (prev_action s) \<noteq> PARTIAL_TURN"
    and d: "deg mod 90 = 0"
  shows "rotate_spare_tile s deg =
           Inr (s\<lparr>spare_tile :=
                    (spare_tile s)\<lparr>rotation := (deg div 90 + rotation (spare_tile s)) mod 4\<rparr>\<rparr>)"
    and "GameState_valid
           (s\<lparr>spare_tile :=
                (spare_tile s)\<lparr>rotation := (deg div 90 + rotation (spare_tile s)) mod 4\<rparr>\<rparr>)"
proof -
  let ?r = "(deg div 90 + rotation (spare_tile s)) mod 4"
  let ?t = "s\<lparr>spare_tile := (spare_tile s)\<lparr>rotation := ?r\<rparr>\<rparr>"
  note b = build_self [OF GameState_valid_build [OF v]]
  have tv: "Tile_valid (spare_tile s)" and bv: "Board_valid (board s)"
    and ds: "distinct (keys (player_states s))" "distinct (keys (player_secrets s))"
    using v by (simp_all add: GameState_valid_def)
  have r: "0 \<le> ?r" "?r \<le> 3"
    by simp_all
  note rot = Tile_rotate_valid [OF tv r]
  have ck: "class_ok ?t"
    using b(7) by (cases "state_class s") (simp_all add: class_ok_def)
  have ow: "player_color ?t = owner_of ?t"
    using b(8) by (cases "state_class s") (simp_all add: owner_of_def)
  have bt: "build ?t = Inr ?t"
    using b(1-6) ck ow
    by (intro build_ok) (simp_all add: validate_spare_tile_gems_rotation)
  show "rotate_spare_tile s deg = Inr ?t"
    using k d by (simp add: rotate_spare_tile_def Let_def rot(1) bt)
  show "GameState_valid ?t"
    using bt bv rot(2) ds by (simp add: GameState_valid_def)
qed

lemma rotate_spare_tile_full_turn:
  "rotate_spare_tile s (360 * k + 90) = rotate_spare_tile s 90"
proof -
  have a: "(360 * k + 90) mod 90 = (0::int)"
    by simp
  have b: "(360 * k + 90) div 90 = 4 * k + (1::int)"
    by simp
  have c: "(4 * k + 1 + r) mod 4 = (1 + r) mod (4::int)" for r
    by (simp add: add.assoc)
  have d: "(90::int) mod 90 = 0" "(90::int) div 90 = 1"
    by simp_all
  show ?thesis
    unfolding rotate_spare_tile_def Let_def a b c d ..
qed

text \<open>
  Claim C8. \<open>rotate_spare_tile\<close> raises \<open>ValueError\<close> for every number of degrees that is
  not a multiple of 90. Rotating by \<open>360 k + 90\<close> degrees is rotating by 90 degrees. On a
  state whose previous action is not a partial turn, rotating by 0, by four times 90 or
  by minus four times 90 degrees returns the state as it is, so the connected directions
  of the spare tile are the same; and a rotation by \<open>d1\<close> followed by a rotation by \<open>d2\<close>
  is the rotation by \<open>d1 + d2\<close>: the quarter turns add up modulo 4.
\<close>

theorem rotation_algebra:
  "(deg mod 90 \<noteq> 0 \<longrightarrow> rotate_spare_tile s deg = Inl ValueError)
   \<and> rotate_spare_tile s (360 * k + 90) = rotate_spare_tile s 90
   \<and> (GameState_valid s \<and> kind (prev_action s) \<noteq> PARTIAL_TURN \<longrightarrow>
        (\<forall>turn \<in> {0, 4 * 90, - 4 * 90}.
           \<exists>s'. rotate_spare_tile s turn = Inr s' \<and> s' = s
              \<and> Tile_connected_directions (spare_tile s') = Tile_connected_directions (spare_tile s))
        \<and> (d1 mod 90 = 0 \<and> d2 mod 90 = 0 \<longrightarrow>
             (\<exists>s1 s2. rotate_spare_tile s d1 = Inr s1 \<and> rotate_spare_tile s1 d2 = Inr s2
                \<and> rotate_spare_tile s (d1 + d2) = Inr s2
                \<and> rotation (spare_tile s2)
                    = (d1 div 90 + d2 div 90 + rotation (spare_tile s)) mod 4)))"
proof (intro conjI impI)
  assume "deg mod 90 \<noteq> 0"
  then show "rotate_spare_tile s deg = Inl ValueError"
    by (simp add: rotate_spare_tile_def)
next
  show "rotate_spare_tile s (360 * k + 90) = rotate_spare_tile s 90"
    by (rule rotate_spare_tile_full_turn)
next
  assume a: "GameState_valid s \<and> kind (prev_action s) \<noteq> PARTIAL_TURN"
  then have v: "GameState_valid s" and k: "kind (prev_action s) \<noteq> PARTIAL_TURN"
    by simp_all
  have "Tile_valid (spare_tile s)"
    using v by (simp add: GameState_valid_def)
  then have r: "0 \<le> rotation (spare_tile s)" "rotation (spare_tile s) \<le> 3"
    by (simp_all add: Tile_valid_iff)
  have same: "rotate_spare_tile s turn = Inr s" if "turn \<in> {0, 4 * 90, - 4 * 90}" for turn
  proof -
    from that have "turn = 0 \<or> turn = 360 \<or> turn = - 360"
      by simp
    then have m: "turn mod 90 = 0" and q: "turn div 90 = 0 \<or> turn div 90 = 4 \<or> turn div 90 = - 4"
      by auto
    from q r have "(turn div 90 + rotation (spare_tile s)) mod 4 = rotation (spare_tile s)"
      by auto
    with rotate_spare_tile_valid(1) [OF v k m] show ?thesis
      by simp
  qed
  then show "\<forall>turn \<in> {0, 4 * 90, - 4 * 90}.
           \<exists>s'. rotate_spare_tile s turn = Inr s' \<and> s' = s
              \<and> Tile_connected_directions (spare_tile s') = Tile_connected_directions (spare_tile s)"
    by blast
next
  assume a: "GameState_valid s \<and> kind (prev_action s) \<noteq> PARTIAL_TURN"
    and d: "d1 mod 90 = 0 \<and> d2 mod 90 = 0"
  then have v: "GameState_valid s" and k: "kind (prev_action s) \<noteq> PARTIAL_TURN"
    and d1: "d1 mod 90 = 0" and d2: "d2 mod 90 = 0"
    by simp_all
  let ?r = "rotation (spare_tile s)"
  let ?s1 = "s\<lparr>spare_tile := (spare_tile s)\<lparr>rotation := (d1 div 90 + ?r) mod 4\<rparr>\<rparr>"
  let ?s2 = "s\<lparr>spare_tile := (spare_tile s)\<lparr>rotation := (d1 div 90 + d2 div 90 + ?r) mod 4\<rparr>\<rparr>"
  note one = rotate_spare_tile_valid [OF v k d1]
  have k1: "kind (prev_action ?s1) \<noteq> PARTIAL_TURN"
    using k by simp
  have q: "(d2 div 90 + (d1 div 90 + ?r) mod 4) mod 4 = (d1 div 90 + d2 div 90 + ?r) mod 4"
    by (simp add: mod_add_right_eq ac_simps)
  have two: "rotate_spare_tile ?s1 d2 = Inr ?s2"
    using rotate_spare_tile_valid(1) [OF one(2) k1 d2] by (simp add: q)
  have d12: "(d1 + d2) mod 90 = 0" "(d1 + d2) div 90 = d1 div 90 + d2 div 90"
  proof -
    from d1 d2 have "90 dvd d1" "90 dvd d2"
      by (simp_all add: mod_eq_0_iff_dvd)
    then obtain a b where ab: "d1 = 90 * a" "d2 = 90 * b"
      by (auto elim!: dvdE)
    have "d1 + d2 = 90 * (a + b)"
      by (simp add: ab algebra_simps)
    then show "(d1 + d2) mod 90 = 0" "(d1 + d2) div 90 = d1 div 90 + d2 div 90"
      by (simp_all add: ab)
  qed
  have both: "rotate_spare_tile s (d1 + d2) = Inr ?s2"
    using rotate_spare_tile_valid(1) [OF v k d12(1)] by (simp add: d12(2))
  have "rotation (spare_tile ?s2) = (d1 div 90 + d2 div 90 + ?r) mod 4"
    by simp
  with one(1) two both
  show "\<exists>s1 s2. rotate_spare_tile s d1 = Inr s1 \<and> rotate_spare_tile s1 d2 = Inr s2
                \<and> rotate_spare_tile s (d1 + d2) = Inr s2
                \<and> rotation (spare_tile s2)
                    = (d1 div 90 + d2 div 90 + rotation (spare_tile s)) mod 4"
    by blast
qed

theorem rotation_algebra_witness:
  "GameState_valid example_state
   \<and> rotate_spare_tile example_state 45 = Inl ValueError
   \<and> rotate_spare_tile example_state (- 360) = Inr example_state
   \<and> rotate_spare_tile example_state 450 = rotate_spare_tile example_state 90
   \<and> (\<exists>s1 s2. rotate_spare_tile example_state 90 = Inr s1
         \<and> rotate_spare_tile s1 180 = Inr s2
         \<and> rotate_spare_tile example_state (90 + 180) = Inr s2
         \<and> rotation (spare_tile s2) = 1)"
proof -
  have k: "kind (prev_action example_state) \<noteq> PARTIAL_TURN"
    and r: "rotation (spare_tile example_state) = 2"
    by (simp_all add: example_state_def example_spare_def)
  have e: "(45::int) mod 90 \<noteq> 0" "(- 360::int) \<in> {0, 4 * 90, - 4 * 90}"
    "(90::int) mod 90 = 0 \<and> (180::int) mod 90 = 0" "(450::int) = 360 * 1 + 90"
    "((90::int) div 90 + 180 div 90 + 2) mod 4 = 1"
    by simp_all
  note t = rotation_algebra [of 45 example_state 1 90 180]
  note c = t [THEN conjunct2, THEN conjunct2, THEN mp, OF conjI [OF example_state_valid k]]
  have 1: "rotate_spare_tile example_state 45 = Inl ValueError"
    by (rule t [THEN conjunct1, THEN mp, OF e(1)])
  from c [THEN conjunct1, THEN bspec, OF e(2)]
  have 2: "rotate_spare_tile example_state (- 360) = Inr example_state"
    by (elim exE conjE) (simp only:)
  from t [THEN conjunct2, THEN conjunct1]
  have 3: "rotate_spare_tile example_state 450 = rotate_spare_tile example_state 90"
    by (simp only: e(4))
  from c [THEN conjunct2, THEN mp, OF e(3)]
  have 4: "\<exists>s1 s2. rotate_spare_tile example_state 90 = Inr s1
         \<and> rotate_spare_tile s1 180 = Inr s2
         \<and> rotate_spare_tile example_state (90 + 180) = Inr s2
         \<and> rotation (spare_tile s2) = 1"
    by (simp only: r e(5))
  show ?thesis
    by (intro conjI example_state_valid 1 2 3 4)
qed

section \<open>The winners\<close>

lemma map_result_Inr:
  "(\<And>x. x \<in> set xs \<Longrightarrow> f x = Inr (g x)) \<Longrightarrow> map_result f xs = Inr (map g xs)"
  by (induction xs) simp_all

lemma py_max_Max:
  assumes "xs \<noteq> []"
  shows "py_max xs = Inr (Max (set xs))"
proof (cases xs)
  case Nil
  with assms show ?thesis by simp
next
  case (Cons y ys)
  have "Max (set (y # ys)) = fold max ys y"
    by (rule Max.set_eq_fold)
  with Cons show ?thesis
    by (simp only: py_max_def list.case)
qed

lemma winners_comprehension:
  "[c. (c, progress) \<leftarrow> map (\<lambda>c. (c, h c)) xs, progress = m] = filter (\<lambda>c. h c = m) xs"
  by (induction xs) simp_all

lemma Max_attained_iff:
  fixes h :: "'a \<Rightarrow> 'b::linorder"
  assumes "x \<in> set xs"
  shows "h x = Max (set (map h xs)) \<longleftrightarrow> (\<forall>y \<in> set xs. h y \<le> h x)"
proof
  assume "h x = Max (set (map h xs))"
  then show "\<forall>y \<in> set xs. h y \<le> h x"
    by (simp add: Max_ge)
next
  assume a: "\<forall>y \<in> set xs. h y \<le> h x"
  have "Max (set (map h xs)) \<le> h x"
    using a assms by (intro Max.boundedI) auto
  moreover have "h x \<le> Max (set (map h xs))"
    using assms by (intro Max_ge) auto
  ultimately show "h x = Max (set (map h xs))"
    by simp
qed

lemma order_by_game_progress_le:
  "order_by_game_progress b \<le> order_by_game_progress a \<longleftrightarrow> ranks_no_lower a b"
  by (cases a; cases b)
     (auto simp: order_by_game_progress_def ranks_no_lower_def distance_to_goal_def
        active_goal_def Let_def less_eq_prod_def)

lemma player_info_valid:
  assumes v: "GameState_valid s" and r: "state_class s = RefereeGameState"
    and c: "c \<in> set (player_colors s)"
  shows "\<exists>p sec. dict_lookup (player_states s) c = Inr p \<and> get_player_secret s c = Inr sec
           \<and> player_info s c = Some (p, sec)"
proof -
  from c obtain p where p: "dict_lookup (player_states s) c = Inr p"
    "map_of (player_states s) c = Some p"
    using dict_lookup_present [of c "player_states s"] by (auto simp: player_colors_def)
  from c have "c \<in> set (keys (player_secrets s))"
    using referee_keys(1) [OF v r] by (simp add: player_colors_def)
  then obtain sec where sec: "dict_lookup (player_secrets s) c = Inr sec"
    "map_of (player_secrets s) c = Some sec"
    using dict_lookup_present [of c "player_secrets s"] by auto
  have "get_player_secret s c = Inr sec"
    using r sec(1) by (simp add: get_player_secret_def)
  with p sec show ?thesis
    by (simp add: player_info_def)
qed

lemma check_winners_colors_valid:
  assumes v: "GameState_valid s" and r: "state_class s = RefereeGameState"
  shows "check_winners_colors s trigger = Inr (spec_winners s trigger)"
    and "best_ranked s \<noteq> []"
proof -
  let ?cs = "player_colors s"
  define h where "h c = order_by_game_progress (the (player_info s c))" for c
  let ?f = "\<lambda>c. bind_result (dict_lookup (player_states s) c) (\<lambda>p.
                 bind_result (get_player_secret s c) (\<lambda>sec.
                   Inr (c, order_by_game_progress (p, sec))))"
  have f: "?f c = Inr (c, h c)" if "c \<in> set ?cs" for c
    using player_info_valid [OF v r that] by (auto simp: h_def)
  have pwp: "map_result ?f ?cs = Inr (map (\<lambda>c. (c, h c)) ?cs)"
    by (rule map_result_Inr) (rule f)
  have ne: "?cs \<noteq> []"
    using build_self(2) [OF GameState_valid_build [OF v]] by (simp add: player_colors_def keys_def)
  have mx: "py_max (map snd (map (\<lambda>c. (c, h c)) ?cs)) = Inr (Max (set (map h ?cs)))"
    using ne by (simp add: py_max_Max comp_def)
  have best: "filter (\<lambda>c. h c = Max (set (map h ?cs))) ?cs = best_ranked s"
    unfolding best_ranked_def
  proof (rule filter_cong [OF refl])
    fix c
    assume c: "c \<in> set ?cs"
    obtain a where a: "player_info s c = Some a"
      using player_info_valid [OF v r c] by blast
    have "(\<forall>c' \<in> set ?cs. h c' \<le> h c) = outranked_by_none s c"
      unfolding outranked_by_none_def list_all_iff
    proof (rule ball_cong [OF refl])
      fix c'
      assume "c' \<in> set ?cs"
      then obtain b where b: "player_info s c' = Some b"
        using player_info_valid [OF v r] by blast
      show "(h c' \<le> h c) =
              (case player_info s c of
                 None \<Rightarrow> False
               | Some a \<Rightarrow>
                   (case player_info s c' of None \<Rightarrow> False | Some b \<Rightarrow> ranks_no_lower a b))"
        by (simp add: a b h_def order_by_game_progress_le)
    qed
    then show "(h c = Max (set (map h ?cs))) = outranked_by_none s c"
      using Max_attained_iff [OF c, of h] by simp
  qed
  have "check_winners_colors s trigger =
          Inr (case trigger of
                 None \<Rightarrow> best_ranked s
               | Some t \<Rightarrow> if length (best_ranked s) > 1 \<and> t \<in> set (best_ranked s) then [t]
                          else best_ranked s)"
    unfolding check_winners_colors_def pwp bind_result_Inr mx Let_def winners_comprehension best ..
  then show "check_winners_colors s trigger = Inr (spec_winners s trigger)"
    by (simp add: spec_winners_def)
  have "Max (set (map h ?cs)) \<in> set (map h ?cs)"
    using ne by (intro Max_in) simp_all
  then obtain c where "c \<in> set ?cs" "h c = Max (set (map h ?cs))"
    by auto
  then have "c \<in> set (filter (\<lambda>c. h c = Max (set (map h ?cs))) ?cs)"
    by simp
  with best show "best_ranked s \<noteq> []"
    by auto
qed

text \<open>
  Claim C6. On a referee's state, the list of winning colours that \<open>_check_winners\<close>
  computes is the list of the specification: the players that no player outranks (more
  treasures first, then the smaller squared distance to the active goal), in turn order,
  unless more than one player is ranked best and the triggering player is one of them,
  in which case it is that player alone. Some player is always ranked best, and the
  winners of the returned outcome are the player objects of these colours.
\<close>

theorem winners_by_progress:
  assumes "GameState_valid s" and "state_class s = RefereeGameState"
  shows "check_winners_colors s trigger = Inr (spec_winners s trigger)
    \<and> best_ranked s \<noteq> []
    \<and> (\<forall>out. check_winners s players trigger = Inr out \<longrightarrow>
          map_result (dict_lookup players) (spec_winners s trigger) = Inr (winners out))"
proof (intro conjI allI impI)
  show c: "check_winners_colors s trigger = Inr (spec_winners s trigger)"
    by (rule check_winners_colors_valid(1) [OF assms])
  show "best_ranked s \<noteq> []"
    by (rule check_winners_colors_valid(2) [OF assms])
  fix out
  assume "check_winners s players trigger = Inr out"
  then have "outcome_with_winners (spec_winners s trigger) s players = Inr out"
    by (simp add: check_winners_def c)
  then show "map_result (dict_lookup players) (spec_winners s trigger) = Inr (winners out)"
    by (auto simp: outcome_with_winners_def Let_def bind_result_eq_Inr)
qed

theorem winners_by_progress_witness:
  "GameState_valid example_tie_state
   \<and> check_winners_colors example_tie_state None = Inr [''red'', ''green'']
   \<and> check_winners_colors example_tie_state (Some ''green'') = Inr [''green'']
   \<and> check_winners_colors example_tie_state (Some ''blue'') = Inr [''red'', ''green'']
   \<and> check_winners_colors example_state (Some ''red'') = Inr [''blue'']
   \<and> check_winners example_state [(''red'', 1::nat), (''green'', 2), (''blue'', 3), (''grey'', 4)]
        (Some ''red'') = Inr (GameOutcome [3] [4])"
proof -
  have r: "state_class example_tie_state = RefereeGameState"
    "state_class example_state = RefereeGameState"
    by (simp_all add: example_tie_state_def example_state_def)
  have e: "spec_winners example_tie_state None = [''red'', ''green'']"
    "spec_winners example_tie_state (Some ''green'') = [''green'']"
    "spec_winners example_tie_state (Some ''blue'') = [''red'', ''green'']"
    "spec_winners example_state (Some ''red'') = [''blue'']"
    by code_simp+
  have o: "check_winners example_state [(''red'', 1::nat), (''green'', 2), (''blue'', 3), (''grey'', 4)]
        (Some ''red'') = Inr (GameOutcome [3] [4])"
    by code_simp
  note t = winners_by_progress [OF example_tie_state_valid r(1), THEN conjunct1]
  note u = winners_by_progress [OF example_state_valid r(2), THEN conjunct1]
  have 1: "check_winners_colors example_tie_state None = Inr [''red'', ''green'']"
    using t [of None] by (simp only: e)
  have 2: "check_winners_colors example_tie_state (Some ''green'') = Inr [''green'']"
    using t [of "Some ''green''"] by (simp only: e)
  have 3: "check_winners_colors example_tie_state (Some ''blue'') = Inr [''red'', ''green'']"
    using t [of "Some ''blue''"] by (simp only: e)
  have 4: "check_winners_colors example_state (Some ''red'') = Inr [''blue'']"
    using u [of "Some ''red''"] by (simp only: e)
  show ?thesis
    by (intro conjI example_tie_state_valid 1 2 3 4 o)
qed

section \<open>The two phases of a turn\<close>

lemma build_prev_action: "build t = Inr s' \<Longrightarrow> prev_action s' = prev_action t"
  by (auto simp: build_eq)

lemma shift_tiles_Inr:
  assumes "shift_tiles s operation = Inr s'"
  shows "kind (prev_action s) \<noteq> PARTIAL_TURN"
    and "prev_action s' = PartialTurnPrevAction operation"
proof -
  from assms show k: "kind (prev_action s) \<noteq> PARTIAL_TURN"
    by (auto simp: shift_tiles_def split: if_splits)
  from assms k obtain new_board new_spare edit where
    "build (s\<lparr>player_states :=
                dict_of_items
                  [(c, move_with_board p edit (insert_location operation)).
                     (c, p) \<leftarrow> player_states s],
              spare_tile := new_spare, board := new_board,
              prev_action := PartialTurnPrevAction operation\<rparr>) = Inr s'"
    by (auto simp: shift_tiles_def bind_result_eq_Inr Let_def split: if_splits)
  from build_prev_action [OF this] show "prev_action s' = PartialTurnPrevAction operation"
    by simp
qed

lemma move_current_player_Inr:
  assumes "move_current_player s dest = Inr s'"
  shows "\<exists>sh. prev_action s = PartialTurnPrevAction sh \<and> prev_action s' = CompleteTurnPrevAction sh"
proof -
  from assms have k: "kind (prev_action s) = PARTIAL_TURN"
    by (auto simp: move_current_player_def bind_result_eq_Inr split: if_splits)
  then obtain sh where sh: "prev_action s = PartialTurnPrevAction sh"
    by (cases "prev_action s") simp_all
  from assms k obtain new_players where
    "build (s\<lparr>player_states := new_players,
              prev_action := PrevAction_complete (prev_action s)\<rparr>) = Inr s'"
    by (auto simp: move_current_player_def bind_result_eq_Inr Let_def split: if_splits)
  from build_prev_action [OF this] have "prev_action s' = CompleteTurnPrevAction sh"
    by (simp add: sh PrevAction_complete_def)
  with sh show ?thesis by blast
qed

text \<open>
  Claim C1. \<open>shift_tiles\<close> returns a state only when the previous action is not a partial
  turn (and raises \<open>TurnContractViolation\<close> when it is), and the previous action of the
  state it returns is the partial turn of the operation. \<open>move_current_player\<close> returns a
  state only when the previous action is a partial turn (and raises
  \<open>TurnContractViolation\<close> for a destination on the board when it is not), and the
  previous action of the state it returns is the complete turn of the same operation.
  \<open>get_legal_move_destinations\<close> is empty when the previous action is not a partial turn,
  and \<open>get_legal_shift_ops\<close> is empty when it is.
\<close>

theorem turn_state_machine:
  "(shift_tiles s operation = Inr s1 \<longrightarrow>
      kind (prev_action s) \<noteq> PARTIAL_TURN
      \<and> prev_action s1 = PartialTurnPrevAction operation)
   \<and> (kind (prev_action s) = PARTIAL_TURN \<longrightarrow>
        shift_tiles s operation = Inl TurnContractViolation)
   \<and> (move_current_player s dest = Inr s2 \<longrightarrow>
        (\<exists>sh. prev_action s = PartialTurnPrevAction sh
           \<and> prev_action s2 = CompleteTurnPrevAction sh))
   \<and> (kind (prev_action s) \<noteq> PARTIAL_TURN \<and> in_bounds (board s) dest \<longrightarrow>
        move_current_player s dest = Inl TurnContractViolation)
   \<and> (GameState_valid s \<and> kind (prev_action s) \<noteq> PARTIAL_TURN \<longrightarrow>
        get_legal_move_destinations s = Inr {})
   \<and> (kind (prev_action s) = PARTIAL_TURN \<longrightarrow> get_legal_shift_ops s = {})"
proof (intro conjI impI)
  assume "shift_tiles s operation = Inr s1"
  then show "kind (prev_action s) \<noteq> PARTIAL_TURN"
    and "prev_action s1 = PartialTurnPrevAction operation"
    by (rule shift_tiles_Inr)+
next
  assume "kind (prev_action s) = PARTIAL_TURN"
  then show "shift_tiles s operation = Inl TurnContractViolation"
    by (simp add: shift_tiles_def)
next
  assume "move_current_player s dest = Inr s2"
  then show "\<exists>sh. prev_action s = PartialTurnPrevAction sh
           \<and> prev_action s2 = CompleteTurnPrevAction sh"
    by (rule move_current_player_Inr)
next
  assume "kind (prev_action s) \<noteq> PARTIAL_TURN \<and> in_bounds (board s) dest"
  then show "move_current_player s dest = Inl TurnContractViolation"
    by (simp add: move_current_player_def assert_in_bounds_eq)
next
  assume a: "GameState_valid s \<and> kind (prev_action s) \<noteq> PARTIAL_TURN"
  then obtain p where "current_player_state s = Inr p"
    using current_player_state_valid [of s] by blast
  with a show "get_legal_move_destinations s = Inr {}"
    by (simp add: get_legal_move_destinations_def Let_def)
next
  assume "kind (prev_action s) = PARTIAL_TURN"
  then show "get_legal_shift_ops s = {}"
    by (simp add: get_legal_shift_ops_def)
qed

theorem turn_state_machine_witness:
  "shift_tiles example_state example_shift = Inr example_shifted_state
   \<and> prev_action example_state = EmptyPrevAction
   \<and> prev_action example_shifted_state = PartialTurnPrevAction example_shift
   \<and> move_current_player example_shifted_state (Coord 1 1) = Inr example_moved_state
   \<and> prev_action example_moved_state = CompleteTurnPrevAction example_shift
   \<and> shift_tiles example_shifted_state example_shift = Inl TurnContractViolation
   \<and> move_current_player example_state (Coord 1 1) = Inl TurnContractViolation
   \<and> get_legal_move_destinations example_state = Inr {}
   \<and> get_legal_move_destinations example_shifted_state = Inr {Coord 1 1, Coord 0 2}
   \<and> get_legal_move_destinations example_moved_state = Inr {}
   \<and> get_legal_shift_ops example_shifted_state = {}"
proof -
  note t0 = turn_state_machine [of example_state example_shift example_shifted_state
      "Coord 1 1" example_moved_state]
  note t1 = turn_state_machine [of example_shifted_state example_shift example_shifted_state
      "Coord 1 1" example_moved_state]
  note t2 = turn_state_machine [of example_moved_state example_shift example_shifted_state
      "Coord 1 1" example_moved_state]
  have k0: "kind (prev_action example_state) \<noteq> PARTIAL_TURN"
    and p0: "prev_action example_state = EmptyPrevAction"
    and b0: "in_bounds (board example_state) (Coord 1 1)"
    and k1: "kind (prev_action example_shifted_state) = PARTIAL_TURN"
    and p1: "prev_action example_shifted_state = PartialTurnPrevAction example_shift"
    and k2: "kind (prev_action example_moved_state) \<noteq> PARTIAL_TURN"
    by code_simp+
  have d: "get_legal_move_destinations example_shifted_state = Inr {Coord 1 1, Coord 0 2}"
    by code_simp
  from t1 [THEN conjunct2, THEN conjunct2, THEN conjunct1, THEN mp,
      OF example_move_current_player]
  have 1: "prev_action example_moved_state = CompleteTurnPrevAction example_shift"
    by (simp add: p1)
  note 2 = t1 [THEN conjunct2, THEN conjunct1, THEN mp, OF k1]
  note 3 = t0 [THEN conjunct2, THEN conjunct2, THEN conjunct2, THEN conjunct1, THEN mp,
      OF conjI [OF k0 b0]]
  note 4 = t0 [THEN conjunct2, THEN conjunct2, THEN conjunct2, THEN conjunct2, THEN conjunct1,
      THEN mp, OF conjI [OF example_state_valid k0]]
  note 5 = t2 [THEN conjunct2, THEN conjunct2, THEN conjunct2, THEN conjunct2, THEN conjunct1,
      THEN mp, OF conjI [OF example_moved_state_valid k2]]
  note 6 = t1 [THEN conjunct2, THEN conjunct2, THEN conjunct2, THEN conjunct2, THEN conjunct2,
      THEN mp, OF k1]
  note 7 = t0 [THEN conjunct1, THEN mp, OF example_shift_tiles, THEN conjunct2]
  show ?thesis
    by (intro conjI example_shift_tiles p0 7 example_move_current_player 1 2 3 4 d 5 6)
qed

section \<open>Dicts built from items\<close>

lemma update_append_new: "k \<notin> fst ` set d \<Longrightarrow> AList.update k v d = d @ [(k, v)]"
  by (induction d) auto

lemma fold_update_distinct:
  "distinct (map fst xs) \<Longrightarrow> fst ` set xs \<inter> fst ` set acc = {}
     \<Longrightarrow> fold (\<lambda>(k, v). AList.update k v) xs acc = acc @ xs"
proof (induction xs arbitrary: acc)
  case Nil
  then show ?case by simp
next
  case (Cons x xs)
  obtain k v where x: "x = (k, v)" by (cases x)
  have new: "k \<notin> fst ` set acc"
    using Cons.prems(2) x by auto
  have "fst ` set xs \<inter> fst ` set (acc @ [(k, v)]) = {}"
    using Cons.prems x by auto
  with Cons.IH [of "acc @ [(k, v)]"] Cons.prems(1)
  have "fold (\<lambda>(k, v). AList.update k v) xs (acc @ [(k, v)]) = (acc @ [(k, v)]) @ xs"
    by simp
  then show ?case
    by (simp add: x update_append_new [OF new])
qed

lemma dict_of_items_distinct: "distinct (map fst xs) \<Longrightarrow> dict_of_items xs = xs"
  using fold_update_distinct [of xs "[]"] by (simp add: dict_of_items_def)

lemma concat_map_if: "concat (map (\<lambda>x. if P x then [g x] else []) xs) = map g (filter P xs)"
  by (induction xs) simp_all

lemma concat_map_if_pair:
  "concat (map (\<lambda>(k, v). if P k then [(g k, v)] else []) xs)
     = map (\<lambda>(k, v). (g k, v)) (filter (\<lambda>(k, v). P k) xs)"
  by (induction xs) auto

lemma map_of_map_key_inj:
  assumes "inj_on g (fst ` set xs)" and "k \<in> fst ` set xs"
  shows "map_of (map (\<lambda>(k, v). (g k, v)) xs) (g k) = map_of xs k"
  using assms
proof (induction xs)
  case Nil
  then show ?case by simp
next
  case (Cons x xs)
  obtain k' v' where x: "x = (k', v')" by (cases x)
  show ?case
  proof (cases "k' = k")
    case True
    then show ?thesis by (simp add: x)
  next
    case False
    with Cons.prems x have kin: "k \<in> fst ` set xs" by auto
    have "g k' \<noteq> g k"
      using Cons.prems(1) False kin x by (auto simp: inj_on_def)
    moreover have "inj_on g (fst ` set xs)"
      using Cons.prems(1) by (auto simp: inj_on_def)
    ultimately show ?thesis
      using Cons.IH kin False by (simp add: x)
  qed
qed

lemma map_of_filter_key:
  "P k \<Longrightarrow> map_of (filter (\<lambda>(k, v). P k) xs) k = map_of xs k"
  by (induction xs) auto

lemma map_of_append_new:
  "map_of (xs @ [(k, v)]) k' = (if k' \<in> fst ` set xs then map_of xs k' else if k' = k then Some v else None)"
  by (induction xs) (auto simp: map_of_eq_None_iff)

section \<open>The keys of a board\<close>

lemma in_bounds_rect: "in_bounds b c \<longleftrightarrow> c \<in> rect (width b) (height b)"
  by (auto simp: in_bounds_def rect_def)

lemma rect_image: "rect w h = (\<lambda>(x, y). Coord x y) ` ({0..<w} \<times> {0..<h})"
proof -
  have "c \<in> (\<lambda>(x, y). Coord x y) ` ({0..<w} \<times> {0..<h})" if "c \<in> rect w h" for c
    using that by (cases c) (auto simp: rect_def)
  then show ?thesis
    by (auto simp: rect_def)
qed

lemma card_rect: "0 \<le> w \<Longrightarrow> 0 \<le> h \<Longrightarrow> int (card (rect w h)) = w * h"
proof -
  assume wh: "0 \<le> w" "0 \<le> h"
  have "inj_on (\<lambda>(x, y). Coord x y) ({0..<w} \<times> {0..<h})"
    by (auto simp: inj_on_def)
  then have "card (rect w h) = card ({0..<w} \<times> {0..<h})"
    unfolding rect_image by (rule card_image)
  also have "\<dots> = nat w * nat h"
    by (simp add: card_cartesian_product)
  finally show ?thesis
    using wh by (simp add: nat_mult_distrib)
qed

lemma finite_rect: "finite (rect w h)"
  unfolding rect_image by simp

lemma count_missing_keys_zero:
  "count_missing_keys ts w h = 0 \<longleftrightarrow> rect w h \<subseteq> set (keys ts)"
proof -
  have "count_missing_keys ts w h = 0 \<longleftrightarrow>
          (\<forall>x \<in> set [0..w - 1]. \<forall>y \<in> set [0..h - 1]. Coord x y \<in> set (keys ts))"
    unfolding count_missing_keys_def
    by (simp add: concat_eq_Nil_conv) blast
  also have "\<dots> \<longleftrightarrow> rect w h \<subseteq> set (keys ts)"
  proof
    assume a: "\<forall>x \<in> set [0..w - 1]. \<forall>y \<in> set [0..h - 1]. Coord x y \<in> set (keys ts)"
    show "rect w h \<subseteq> set (keys ts)"
    proof
      fix c
      assume "c \<in> rect w h"
      then have "col c \<in> set [0..w - 1]" "row c \<in> set [0..h - 1]"
        by (auto simp: rect_def)
      with a have "Coord (col c) (row c) \<in> set (keys ts)"
        by blast
      then show "c \<in> set (keys ts)"
        by simp
    qed
  next
    assume "rect w h \<subseteq> set (keys ts)"
    then show "\<forall>x \<in> set [0..w - 1]. \<forall>y \<in> set [0..h - 1]. Coord x y \<in> set (keys ts)"
      by (auto simp: rect_def)
  qed
  finally show ?thesis .
qed

section \<open>What the board constructor checks\<close>

lemma validate_tile_gems_Inr: "validate_tile_gems ts = Inr () \<longleftrightarrow> distinct (map gems ts)"
proof -
  have "card (set (map gems ts)) = length ts \<longleftrightarrow> distinct (map gems ts)"
    using card_distinct [of "map gems ts"] distinct_card [of "map gems ts"] by auto
  then show ?thesis
    by (simp add: validate_tile_gems_def Let_def)
qed

lemma count_missing_keys_nonneg: "0 \<le> count_missing_keys ts w h"
  by (simp add: count_missing_keys_def)

lemma Board_init_eq:
  "Board_init ts w h = Inr b \<longleftrightarrow>
     0 < w \<and> 0 < h \<and> rect w h \<subseteq> set (keys ts) \<and> int (length ts) \<le> w * h
     \<and> distinct (map gems (values_of ts)) \<and> b = \<lparr>tiles = ts, width = w, height = h\<rparr>"
proof -
  have m: "count_missing_keys ts w h > 0 \<longleftrightarrow> \<not> rect w h \<subseteq> set (keys ts)"
    using count_missing_keys_nonneg [of ts w h] count_missing_keys_zero [of ts w h] by linarith
  show ?thesis
  proof (cases "rect w h \<subseteq> set (keys ts)")
    case True
    then have z: "count_missing_keys ts w h = 0"
      by (simp add: count_missing_keys_zero)
    show ?thesis
      using True
      by (cases "validate_tile_gems (values_of ts)")
         (auto simp: Board_init_def Let_def z validate_tile_gems_Inr [symmetric])
  next
    case False
    with m show ?thesis
      by (simp add: Board_init_def Let_def)
  qed
qed

lemma Board_valid_iff:
  "Board_valid b \<longleftrightarrow>
     0 < width b \<and> 0 < height b \<and> distinct (keys (tiles b))
     \<and> set (keys (tiles b)) = rect (width b) (height b)
     \<and> distinct (map gems (values_of (tiles b)))
     \<and> list_all Tile_valid (values_of (tiles b))"
proof -
  have len: "length (tiles b) = card (set (keys (tiles b)))" if "distinct (keys (tiles b))"
    using distinct_card [OF that] by (simp add: keys_def)
  have eq: "set (keys (tiles b)) = rect (width b) (height b)"
    if d: "distinct (keys (tiles b))" and s: "rect (width b) (height b) \<subseteq> set (keys (tiles b))"
      and l: "int (length (tiles b)) \<le> width b * height b" and p: "0 < width b" "0 < height b"
  proof -
    have "int (card (rect (width b) (height b))) = width b * height b"
      using p by (intro card_rect) simp_all
    with l len [OF d] have "card (set (keys (tiles b))) \<le> card (rect (width b) (height b))"
      by linarith
    with s show ?thesis
      by (intro card_seteq [symmetric]) simp_all
  qed
  have le: "int (length (tiles b)) \<le> width b * height b"
    if d: "distinct (keys (tiles b))" and s: "set (keys (tiles b)) = rect (width b) (height b)"
      and p: "0 < width b" "0 < height b"
  proof -
    have "int (card (rect (width b) (height b))) = width b * height b"
      using p by (intro card_rect) simp_all
    with len [OF d] s show ?thesis
      by simp
  qed
  have self: "(b = \<lparr>tiles = tiles b, width = width b, height = height b\<rparr>) = True"
    by simp
  show ?thesis
    unfolding Board_valid_def Board_init_eq self
    using eq le by auto
qed

lemma Board_init_ok:
  assumes "0 < w" and "0 < h" and "distinct (keys ts)" and "set (keys ts) = rect w h"
    and "distinct (map gems (values_of ts))"
  shows "Board_init ts w h = Inr \<lparr>tiles = ts, width = w, height = h\<rparr>"
proof -
  have "int (card (rect w h)) = w * h"
    using assms(1,2) by (intro card_rect) simp_all
  moreover have "length ts = card (set (keys ts))"
    using distinct_card [OF assms(3)] by (simp add: keys_def)
  ultimately have "int (length ts) \<le> w * h"
    using assms(4) by simp
  with assms show ?thesis
    by (simp add: Board_init_eq)
qed

section \<open>Sliding a line of tiles\<close>

lemma keys_slid_items:
  "keys (slid_items f dropped ts) = map f (filter (\<lambda>c. c \<noteq> dropped) (keys ts))"
  by (induction ts) (auto simp: slid_items_def keys_def)

lemma values_slid_items:
  "values_of (slid_items f dropped ts) = values_of (filter (\<lambda>(c, t). c \<noteq> dropped) ts)"
  by (induction ts) (auto simp: slid_items_def values_of_def)

lemma slid_items_keys_facts:
  assumes d: "distinct (keys ts)" and inj: "inj_on f (set (keys ts) - {dropped})"
  shows "distinct (keys (slid_items f dropped ts))"
    and "set (keys (slid_items f dropped ts)) = f ` (set (keys ts) - {dropped})"
proof -
  have s: "set (filter (\<lambda>c. c \<noteq> dropped) (keys ts)) = set (keys ts) - {dropped}"
    by auto
  have "inj_on f (set (filter (\<lambda>c. c \<noteq> dropped) (keys ts)))"
    using inj by (simp only: s)
  moreover have "distinct (filter (\<lambda>c. c \<noteq> dropped) (keys ts))"
    using d by simp
  ultimately show "distinct (keys (slid_items f dropped ts))"
    unfolding keys_slid_items by (simp only: distinct_map simp_thms)
  show "set (keys (slid_items f dropped ts)) = f ` (set (keys ts) - {dropped})"
    unfolding keys_slid_items by (simp only: set_map s)
qed

lemma map_of_slid_items:
  assumes inj: "inj_on f (set (keys ts) - {dropped})"
    and c: "c \<in> set (keys ts)" "c \<noteq> dropped"
  shows "map_of (slid_items f dropped ts) (f c) = map_of ts c"
proof -
  let ?xs = "filter (\<lambda>(c, t). c \<noteq> dropped) ts"
  have ks: "fst ` set ?xs = set (keys ts) - {dropped}"
    by (auto simp: keys_def image_iff)
  have "inj_on f (fst ` set ?xs)" "c \<in> fst ` set ?xs"
    using inj c by (simp_all only: ks) simp_all
  then have "map_of (map (\<lambda>(k, v). (f k, v)) ?xs) (f c) = map_of ?xs c"
    by (rule map_of_map_key_inj)
  also have "\<dots> = map_of ts c"
    using c(2) by (rule map_of_filter_key)
  finally show ?thesis
    by (simp add: slid_items_def)
qed

lemma slid_items_insert:
  fixes tile :: Tile
  assumes d: "distinct (keys ts)" and inj: "inj_on f (set (keys ts) - {dropped})"
    and img: "f ` (set (keys ts) - {dropped}) = set (keys ts) - {coord}"
    and co: "coord \<in> set (keys ts)"
  defines "new_tiles \<equiv> AList.update coord tile (dict_of_items (slid_items f dropped ts))"
  shows "new_tiles = slid_items f dropped ts @ [(coord, tile)]"
    and "distinct (keys new_tiles)"
    and "set (keys new_tiles) = set (keys ts)"
    and "values_of new_tiles = values_of (filter (\<lambda>(c, t). c \<noteq> dropped) ts) @ [tile]"
    and "map_of new_tiles coord = Some tile"
    and "\<And>c. c \<in> set (keys ts) \<Longrightarrow> c \<noteq> dropped \<Longrightarrow> map_of new_tiles (f c) = map_of ts c"
proof -
  note k = slid_items_keys_facts [OF d inj]
  have fresh: "coord \<notin> fst ` set (slid_items f dropped ts)"
    using k(2) img by (simp add: keys_def)
  have "dict_of_items (slid_items f dropped ts) = slid_items f dropped ts"
    using k(1) by (intro dict_of_items_distinct) (simp add: keys_def)
  then show eq: "new_tiles = slid_items f dropped ts @ [(coord, tile)]"
    by (simp add: new_tiles_def update_append_new [OF fresh])
  show "distinct (keys new_tiles)"
    using k(1) fresh by (simp add: eq keys_def)
  show "set (keys new_tiles) = set (keys ts)"
    using k(2) img co by (auto simp: eq keys_def)
  show "values_of new_tiles = values_of (filter (\<lambda>(c, t). c \<noteq> dropped) ts) @ [tile]"
    using values_slid_items [of f dropped ts] by (simp add: eq values_of_def)
  show "map_of new_tiles coord = Some tile"
    using fresh unfolding eq map_of_append_new by simp
  show "map_of new_tiles (f c) = map_of ts c" if c: "c \<in> set (keys ts)" "c \<noteq> dropped" for c
  proof -
    have "f c \<in> fst ` set (slid_items f dropped ts)"
      using k(2) c by (auto simp: keys_def)
    then show ?thesis
      using map_of_slid_items [OF inj c] unfolding eq map_of_append_new by simp
  qed
qed

lemma distinct_remaining_gems:
  "distinct (map gems (values_of ts))
     \<Longrightarrow> distinct (map gems (values_of (filter (\<lambda>(c, t). c \<noteq> dropped) ts)))"
  by (simp add: values_of_def distinct_map_filter)

lemma slid_board:
  fixes tile :: Tile
  assumes bv: "Board_valid b" and inj: "inj_on f (rect (width b) (height b) - {dropped})"
    and img: "f ` (rect (width b) (height b) - {dropped}) = rect (width b) (height b) - {coord}"
    and co: "coord \<in> rect (width b) (height b)"
    and g: "gems tile \<notin> set (map gems (remaining_tiles b dropped))"
  defines "new_tiles \<equiv> AList.update coord tile (dict_of_items (slid_items f dropped (tiles b)))"
  shows "with_tiles b new_tiles = Inr \<lparr>tiles = new_tiles, width = width b, height = height b\<rparr>"
    and "Tile_valid tile \<Longrightarrow>
           Board_valid \<lparr>tiles = new_tiles, width = width b, height = height b\<rparr>"
    and "values_of new_tiles = remaining_tiles b dropped @ [tile]"
    and "map_of new_tiles coord = Some tile"
    and "\<And>c. c \<in> rect (width b) (height b) \<Longrightarrow> c \<noteq> dropped
           \<Longrightarrow> map_of new_tiles (f c) = map_of (tiles b) c"
    and "set (keys new_tiles) = rect (width b) (height b)"
proof -
  note v = bv [unfolded Board_valid_iff]
  from v have ks: "set (keys (tiles b)) = rect (width b) (height b)"
    and d: "distinct (keys (tiles b))" by simp_all
  note s = slid_items_insert [OF d inj [folded ks] img [folded ks] co [folded ks],
      where tile = tile, folded new_tiles_def]
  show vals: "values_of new_tiles = remaining_tiles b dropped @ [tile]"
    using s(4) by (simp add: remaining_tiles_def)
  have dg: "distinct (map gems (values_of new_tiles))"
    using distinct_remaining_gems [of "tiles b" dropped] v g
    by (simp add: vals remaining_tiles_def)
  show "with_tiles b new_tiles = Inr \<lparr>tiles = new_tiles, width = width b, height = height b\<rparr>"
    unfolding with_tiles_def
    using v s(2) s(3) dg by (intro Board_init_ok) (simp_all add: ks)
  show "Board_valid \<lparr>tiles = new_tiles, width = width b, height = height b\<rparr>" if "Tile_valid tile"
  proof -
    have "set (remaining_tiles b dropped) \<subseteq> set (values_of (tiles b))"
      by (auto simp: remaining_tiles_def values_of_def)
    with v that have "list_all Tile_valid (values_of new_tiles)"
      by (auto simp: vals list_all_iff)
    with v s(2) s(3) dg show ?thesis
      by (simp add: Board_valid_iff ks)
  qed
  show "map_of new_tiles coord = Some tile"
    by (rule s(5))
  show "map_of new_tiles (f c) = map_of (tiles b) c"
    if "c \<in> rect (width b) (height b)" "c \<noteq> dropped" for c
    using s(6) [of c] that by (simp add: ks)
  show "set (keys new_tiles) = rect (width b) (height b)"
    using s(3) by (simp add: ks)
qed

section \<open>The renaming of a row and of a column\<close>

lemma row_replacements:
  fixes w r d :: int
  defines "items \<equiv> [(Coord x r, Coord (x + d) r). x \<leftarrow> [0..w - 1], 0 \<le> x + d \<and> x + d < w]"
  shows "dict_of_items items = items"
    and "map_of items c =
           (if row c = r \<and> 0 \<le> col c \<and> col c < w \<and> 0 \<le> col c + d \<and> col c + d < w
            then Some (Coord (col c + d) r) else None)"
    and "dict_get (dict_of_items items) c c = row_shift w r d c"
proof -
  have items: "items = map (\<lambda>x. (Coord x r, Coord (x + d) r))
                         (filter (\<lambda>x. 0 \<le> x + d \<and> x + d < w) [0..w - 1])"
    by (simp add: items_def concat_map_if)
  have dist: "distinct (map fst items)"
    by (simp add: items comp_def distinct_map inj_on_def)
  show di: "dict_of_items items = items"
    using dist by (rule dict_of_items_distinct)
  show m: "map_of items c =
           (if row c = r \<and> 0 \<le> col c \<and> col c < w \<and> 0 \<le> col c + d \<and> col c + d < w
            then Some (Coord (col c + d) r) else None)"
  proof (cases "row c = r \<and> 0 \<le> col c \<and> col c < w \<and> 0 \<le> col c + d \<and> col c + d < w")
    case True
    then have "(c, Coord (col c + d) r) \<in> set items"
      by (cases c) (auto simp: items)
    then have "map_of items c = Some (Coord (col c + d) r)"
      using dist by simp
    with True show ?thesis by simp
  next
    case False
    then have "c \<notin> fst ` set items"
      by (cases c) (auto simp: items)
    then have "map_of items c = None"
      by (simp add: map_of_eq_None_iff)
    with False show ?thesis by simp
  qed
  show "dict_get (dict_of_items items) c c = row_shift w r d c"
    by (simp add: di dict_get_def m row_shift_def)
qed

lemma column_replacements:
  fixes h k d :: int
  defines "items \<equiv> [(Coord k y, Coord k (y + d)). y \<leftarrow> [0..h - 1], 0 \<le> y + d \<and> y + d < h]"
  shows "dict_of_items items = items"
    and "map_of items c =
           (if col c = k \<and> 0 \<le> row c \<and> row c < h \<and> 0 \<le> row c + d \<and> row c + d < h
            then Some (Coord k (row c + d)) else None)"
    and "dict_get (dict_of_items items) c c = column_shift h k d c"
proof -
  have items: "items = map (\<lambda>y. (Coord k y, Coord k (y + d)))
                         (filter (\<lambda>y. 0 \<le> y + d \<and> y + d < h) [0..h - 1])"
    by (simp add: items_def concat_map_if)
  have dist: "distinct (map fst items)"
    by (simp add: items comp_def distinct_map inj_on_def)
  show di: "dict_of_items items = items"
    using dist by (rule dict_of_items_distinct)
  show m: "map_of items c =
           (if col c = k \<and> 0 \<le> row c \<and> row c < h \<and> 0 \<le> row c + d \<and> row c + d < h
            then Some (Coord k (row c + d)) else None)"
  proof (cases "col c = k \<and> 0 \<le> row c \<and> row c < h \<and> 0 \<le> row c + d \<and> row c + d < h")
    case True
    then have "(c, Coord k (row c + d)) \<in> set items"
      by (cases c) (auto simp: items)
    then have "map_of items c = Some (Coord k (row c + d))"
      using dist by simp
    with True show ?thesis by simp
  next
    case False
    then have "c \<notin> fst ` set items"
      by (cases c) (auto simp: items)
    then have "map_of items c = None"
      by (simp add: map_of_eq_None_iff)
    with False show ?thesis by simp
  qed
  show "dict_get (dict_of_items items) c c = column_shift h k d c"
    by (simp add: di dict_get_def m column_shift_def)
qed

lemma row_shift_right:
  assumes "0 < w" and "0 < h" and "0 \<le> r" and "r < h"
  shows "inj_on (row_shift w r 1) (rect w h - {Coord (w - 1) r})"
    and "(row_shift w r 1) ` (rect w h - {Coord (w - 1) r}) = rect w h - {Coord 0 r}"
proof -
  show "inj_on (row_shift w r 1) (rect w h - {Coord (w - 1) r})"
    unfolding inj_on_def
  proof (intro ballI impI)
    fix a b
    assume "a \<in> rect w h - {Coord (w - 1) r}" "b \<in> rect w h - {Coord (w - 1) r}"
      "row_shift w r 1 a = row_shift w r 1 b"
    then show "a = b"
      by (cases a; cases b) (auto simp: row_shift_def column_shift_def rect_def split: if_splits)
  qed
  show "(row_shift w r 1) ` (rect w h - {Coord (w - 1) r}) = rect w h - {Coord 0 r}"
  proof (intro set_eqI iffI)
    fix c
    assume "c \<in> (row_shift w r 1) ` (rect w h - {Coord (w - 1) r})"
    then obtain a where "a \<in> rect w h - {Coord (w - 1) r}" "c = row_shift w r 1 a"
      by blast
    then show "c \<in> rect w h - {Coord 0 r}"
      using assms
      by (cases a) (auto simp: row_shift_def column_shift_def rect_def split: if_splits)
  next
    fix c
    assume c: "c \<in> rect w h - {Coord 0 r}"
    let ?a = "if row c = r then Coord (col c - 1) r else c"
    have a: "?a \<in> rect w h - {Coord (w - 1) r}"
      using c assms by (cases c) (auto simp: rect_def)
    have e: "row_shift w r 1 ?a = c"
      using c assms by (cases c) (auto simp: row_shift_def column_shift_def rect_def)
    show "c \<in> (row_shift w r 1) ` (rect w h - {Coord (w - 1) r})"
      by (rule image_eqI [where f = "row_shift w r 1" and x = "?a", OF e [symmetric] a])
  qed
qed

lemma row_shift_left:
  assumes "0 < w" and "0 < h" and "0 \<le> r" and "r < h"
  shows "inj_on (row_shift w r (- 1)) (rect w h - {Coord 0 r})"
    and "(row_shift w r (- 1)) ` (rect w h - {Coord 0 r}) = rect w h - {Coord (w - 1) r}"
proof -
  show "inj_on (row_shift w r (- 1)) (rect w h - {Coord 0 r})"
    unfolding inj_on_def
  proof (intro ballI impI)
    fix a b
    assume "a \<in> rect w h - {Coord 0 r}" "b \<in> rect w h - {Coord 0 r}"
      "row_shift w r (- 1) a = row_shift w r (- 1) b"
    then show "a = b"
      by (cases a; cases b) (auto simp: row_shift_def column_shift_def rect_def split: if_splits)
  qed
  show "(row_shift w r (- 1)) ` (rect w h - {Coord 0 r}) = rect w h - {Coord (w - 1) r}"
  proof (intro set_eqI iffI)
    fix c
    assume "c \<in> (row_shift w r (- 1)) ` (rect w h - {Coord 0 r})"
    then obtain a where "a \<in> rect w h - {Coord 0 r}" "c = row_shift w r (- 1) a"
      by blast
    then show "c \<in> rect w h - {Coord (w - 1) r}"
      using assms
      by (cases a) (auto simp: row_shift_def column_shift_def rect_def split: if_splits)
  next
    fix c
    assume c: "c \<in> rect w h - {Coord (w - 1) r}"
    let ?a = "if row c = r then Coord (col c + 1) r else c"
    have a: "?a \<in> rect w h - {Coord 0 r}"
      using c assms by (cases c) (auto simp: rect_def)
    have e: "row_shift w r (- 1) ?a = c"
      using c assms by (cases c) (auto simp: row_shift_def column_shift_def rect_def)
    show "c \<in> (row_shift w r (- 1)) ` (rect w h - {Coord 0 r})"
      by (rule image_eqI [where f = "row_shift w r (- 1)" and x = "?a", OF e [symmetric] a])
  qed
qed

lemma column_shift_down:
  assumes "0 < w" and "0 < h" and "0 \<le> k" and "k < w"
  shows "inj_on (column_shift h k 1) (rect w h - {Coord k (h - 1)})"
    and "(column_shift h k 1) ` (rect w h - {Coord k (h - 1)}) = rect w h - {Coord k 0}"
proof -
  show "inj_on (column_shift h k 1) (rect w h - {Coord k (h - 1)})"
    unfolding inj_on_def
  proof (intro ballI impI)
    fix a b
    assume "a \<in> rect w h - {Coord k (h - 1)}" "b \<in> rect w h - {Coord k (h - 1)}"
      "column_shift h k 1 a = column_shift h k 1 b"
    then show "a = b"
      by (cases a; cases b) (auto simp: row_shift_def column_shift_def rect_def split: if_splits)
  qed
  show "(column_shift h k 1) ` (rect w h - {Coord k (h - 1)}) = rect w h - {Coord k 0}"
  proof (intro set_eqI iffI)
    fix c
    assume "c \<in> (column_shift h k 1) ` (rect w h - {Coord k (h - 1)})"
    then obtain a where "a \<in> rect w h - {Coord k (h - 1)}" "c = column_shift h k 1 a"
      by blast
    then show "c \<in> rect w h - {Coord k 0}"
      using assms
      by (cases a) (auto simp: row_shift_def column_shift_def rect_def split: if_splits)
  next
    fix c
    assume c: "c \<in> rect w h - {Coord k 0}"
    let ?a = "if col c = k then Coord k (row c - 1) else c"
    have a: "?a \<in> rect w h - {Coord k (h - 1)}"
      using c assms by (cases c) (auto simp: rect_def)
    have e: "column_shift h k 1 ?a = c"
      using c assms by (cases c) (auto simp: row_shift_def column_shift_def rect_def)
    show "c \<in> (column_shift h k 1) ` (rect w h - {Coord k (h - 1)})"
      by (rule image_eqI [where f = "column_shift h k 1" and x = "?a", OF e [symmetric] a])
  qed
qed

lemma column_shift_up:
  assumes "0 < w" and "0 < h" and "0 \<le> k" and "k < w"
  shows "inj_on (column_shift h k (- 1)) (rect w h - {Coord k 0})"
    and "(column_shift h k (- 1)) ` (rect w h - {Coord k 0}) = rect w h - {Coord k (h - 1)}"
proof -
  show "inj_on (column_shift h k (- 1)) (rect w h - {Coord k 0})"
    unfolding inj_on_def
  proof (intro ballI impI)
    fix a b
    assume "a \<in> rect w h - {Coord k 0}" "b \<in> rect w h - {Coord k 0}"
      "column_shift h k (- 1) a = column_shift h k (- 1) b"
    then show "a = b"
      by (cases a; cases b) (auto simp: row_shift_def column_shift_def rect_def split: if_splits)
  qed
  show "(column_shift h k (- 1)) ` (rect w h - {Coord k 0}) = rect w h - {Coord k (h - 1)}"
  proof (intro set_eqI iffI)
    fix c
    assume "c \<in> (column_shift h k (- 1)) ` (rect w h - {Coord k 0})"
    then obtain a where "a \<in> rect w h - {Coord k 0}" "c = column_shift h k (- 1) a"
      by blast
    then show "c \<in> rect w h - {Coord k (h - 1)}"
      using assms
      by (cases a) (auto simp: row_shift_def column_shift_def rect_def split: if_splits)
  next
    fix c
    assume c: "c \<in> rect w h - {Coord k (h - 1)}"
    let ?a = "if col c = k then Coord k (row c + 1) else c"
    have a: "?a \<in> rect w h - {Coord k 0}"
      using c assms by (cases c) (auto simp: rect_def)
    have e: "column_shift h k (- 1) ?a = c"
      using c assms by (cases c) (auto simp: row_shift_def column_shift_def rect_def)
    show "c \<in> (column_shift h k (- 1)) ` (rect w h - {Coord k 0})"
      by (rule image_eqI [where f = "column_shift h k (- 1)" and x = "?a", OF e [symmetric] a])
  qed
qed

section \<open>Sliding and inserting\<close>

lemma slide_row_eq:
  "slide_row b r d =
     bind_result
       (dict_lookup (tiles b) (if d = LEFT then Coord 0 r else Coord (width b - 1) r))
       (\<lambda>dropped.
          Inr (dict_of_items
                 (slid_items (row_shift (width b) r (Direction_dx d))
                    (if d = LEFT then Coord 0 r else Coord (width b - 1) r) (tiles b)),
               dropped,
               BoardEdit
                 [(Coord x r, Coord (x + Direction_dx d) r).
                    x \<leftarrow> [0..width b - 1],
                    0 \<le> x + Direction_dx d \<and> x + Direction_dx d < width b]
                 {if d = LEFT then Coord 0 r else Coord (width b - 1) r}))"
  unfolding slide_row_def Let_def row_replacements(1)
    row_replacements(3) [unfolded row_replacements(1)] concat_map_if_pair slid_items_def ..

lemma slide_column_eq:
  "slide_column b k d =
     bind_result
       (dict_lookup (tiles b) (if d = UP then Coord k 0 else Coord k (height b - 1)))
       (\<lambda>dropped.
          Inr (dict_of_items
                 (slid_items (column_shift (height b) k (Direction_dy d))
                    (if d = UP then Coord k 0 else Coord k (height b - 1)) (tiles b)),
               dropped,
               BoardEdit
                 [(Coord k y, Coord k (y + Direction_dy d)).
                    y \<leftarrow> [0..height b - 1],
                    0 \<le> y + Direction_dy d \<and> y + Direction_dy d < height b]
                 {if d = UP then Coord k 0 else Coord k (height b - 1)}))"
  unfolding slide_column_def Let_def column_replacements(1)
    column_replacements(3) [unfolded column_replacements(1)] concat_map_if_pair slid_items_def ..

lemma valid_insert_location:
  assumes "0 < width b" and "0 < height b" and "coord \<in> get_valid_insert_locations b d"
  shows "in_bounds b coord"
    and "is_moveable_row_or_column (col coord)"
    and "is_moveable_row_or_column (row coord)"
    and "d = DOWN \<Longrightarrow> row coord = 0"
    and "d = UP \<Longrightarrow> row coord = height b - 1"
    and "d = RIGHT \<Longrightarrow> col coord = 0"
    and "d = LEFT \<Longrightarrow> col coord = width b - 1"
  using assms
  by (cases d; auto simp: get_valid_insert_locations_def is_vertical_def in_bounds_def Let_def
        is_moveable_row_or_column_def split: if_splits)+

lemma assert_valid_shift_and_insert_ok:
  assumes "0 < width b" and "0 < height b" and "coord \<in> get_valid_insert_locations b d"
  shows "assert_valid_shift_and_insert b coord d = Inr ()"
  using valid_insert_location(1-3) [OF assms] assms(3)
  by (simp add: assert_valid_shift_and_insert_def assert_in_bounds_eq)

lemma Direction_steps [simp]:
  "Direction_dx UP = 0" "Direction_dy UP = - 1"
  "Direction_dx RIGHT = 1" "Direction_dy RIGHT = 0"
  "Direction_dx DOWN = 0" "Direction_dy DOWN = 1"
  "Direction_dx LEFT = - 1" "Direction_dy LEFT = 0"
  by (simp_all add: Direction_dx_def Direction_dy_def)

lemma far_edge_in_rect:
  assumes "0 < width b" and "0 < height b" and "coord \<in> get_valid_insert_locations b d"
  shows "far_edge b coord d \<in> rect (width b) (height b)"
  using valid_insert_location(1) [OF assms] assms(1,2)
  by (cases d) (auto simp: far_edge_def rect_def in_bounds_def)

lemma line_shift_facts:
  assumes w: "0 < width b" and h: "0 < height b"
    and v: "coord \<in> get_valid_insert_locations b d"
  shows "inj_on (line_shift b coord d) (rect (width b) (height b) - {far_edge b coord d})"
    and "line_shift b coord d ` (rect (width b) (height b) - {far_edge b coord d})
           = rect (width b) (height b) - {coord}"
proof -
  note l = valid_insert_location [OF w h v]
  from l(1) have r: "0 \<le> row coord" "row coord < height b" "0 \<le> col coord" "col coord < width b"
    by (simp_all add: in_bounds_def)
  have c: "coord = Coord (col coord) (row coord)"
    by simp
  show "inj_on (line_shift b coord d) (rect (width b) (height b) - {far_edge b coord d})"
  proof (cases d)
    case UP
    then show ?thesis
      using column_shift_up(1) [OF w h r(3,4)]
      by (simp add: line_shift_def is_vertical_def far_edge_def)
  next
    case RIGHT
    then show ?thesis
      using row_shift_right(1) [OF w h r(1,2)]
      by (simp add: line_shift_def is_vertical_def far_edge_def)
  next
    case DOWN
    then show ?thesis
      using column_shift_down(1) [OF w h r(3,4)]
      by (simp add: line_shift_def is_vertical_def far_edge_def)
  next
    case LEFT
    then show ?thesis
      using row_shift_left(1) [OF w h r(1,2)]
      by (simp add: line_shift_def is_vertical_def far_edge_def)
  qed
  show "line_shift b coord d ` (rect (width b) (height b) - {far_edge b coord d})
           = rect (width b) (height b) - {coord}"
  proof (cases d)
    case UP
    with l(5) have "coord = Coord (col coord) (height b - 1)"
      using c by simp
    with UP show ?thesis
      using column_shift_up(2) [OF w h r(3,4)]
      by (simp add: line_shift_def is_vertical_def far_edge_def)
  next
    case RIGHT
    with l(6) have "coord = Coord 0 (row coord)"
      using c by simp
    with RIGHT show ?thesis
      using row_shift_right(2) [OF w h r(1,2)]
      by (simp add: line_shift_def is_vertical_def far_edge_def)
  next
    case DOWN
    with l(4) have "coord = Coord (col coord) 0"
      using c by simp
    with DOWN show ?thesis
      using column_shift_down(2) [OF w h r(3,4)]
      by (simp add: line_shift_def is_vertical_def far_edge_def)
  next
    case LEFT
    with l(7) have "coord = Coord (width b - 1) (row coord)"
      using c by simp
    with LEFT show ?thesis
      using row_shift_left(2) [OF w h r(1,2)]
      by (simp add: line_shift_def is_vertical_def far_edge_def)
  qed
qed

lemma Board_valid_keys:
  assumes "Board_valid b"
  shows "0 < width b" and "0 < height b"
    and "set (keys (tiles b)) = rect (width b) (height b)"
    and "distinct (keys (tiles b))"
    and "distinct (map gems (values_of (tiles b)))"
    and "list_all Tile_valid (values_of (tiles b))"
  using assms by (simp_all add: Board_valid_iff)

lemma far_edge_cases:
  "is_vertical d \<Longrightarrow>
     far_edge b coord d
       = (if d = UP then Coord (col coord) 0 else Coord (col coord) (height b - 1))"
  "\<not> is_vertical d \<Longrightarrow>
     far_edge b coord d
       = (if d = LEFT then Coord 0 (row coord) else Coord (width b - 1) (row coord))"
  by (cases d; simp add: far_edge_def is_vertical_def)+

lemma slide_line_eq:
  "(if is_vertical d then slide_column b (col coord) d else slide_row b (row coord) d) =
     bind_result (dict_lookup (tiles b) (far_edge b coord d))
       (\<lambda>dropped.
          Inr (dict_of_items
                 (slid_items (line_shift b coord d) (far_edge b coord d) (tiles b)),
               dropped,
               BoardEdit (line_replacements b coord d) {far_edge b coord d}))"
proof (cases "is_vertical d")
  case True
  show ?thesis
    unfolding far_edge_cases(1) [OF True] line_shift_def line_replacements_def
      if_P [OF True] slide_column_eq ..
next
  case False
  show ?thesis
    unfolding far_edge_cases(2) [OF False] line_shift_def line_replacements_def
      if_not_P [OF False] slide_row_eq ..
qed

lemma slide_and_insert_tile_eq:
  assumes bv: "Board_valid b" and v: "coord \<in> get_valid_insert_locations b d"
  shows "\<exists>old. map_of (tiles b) (far_edge b coord d) = Some old
    \<and> slide_and_insert_tile b coord d tile =
        bind_result
          (with_tiles b
             (AList.update coord tile
                (dict_of_items
                   (slid_items (line_shift b coord d) (far_edge b coord d) (tiles b)))))
          (\<lambda>new_board.
             Inr (new_board, old, BoardEdit (line_replacements b coord d) {far_edge b coord d}))"
proof -
  note k = Board_valid_keys [OF bv]
  have fe: "far_edge b coord d \<in> set (keys (tiles b))"
    unfolding k(3) by (rule far_edge_in_rect [OF k(1,2) v])
  from dict_lookup_present [OF fe]
  obtain old where old: "dict_lookup (tiles b) (far_edge b coord d) = Inr old"
    "map_of (tiles b) (far_edge b coord d) = Some old"
    by (elim exE conjE)
  note ok = assert_valid_shift_and_insert_ok [OF k(1,2) v]
  have "slide_and_insert_tile b coord d tile =
        bind_result
          (with_tiles b
             (AList.update coord tile
                (dict_of_items
                   (slid_items (line_shift b coord d) (far_edge b coord d) (tiles b)))))
          (\<lambda>new_board.
             Inr (new_board, old, BoardEdit (line_replacements b coord d) {far_edge b coord d}))"
    unfolding slide_and_insert_tile_def ok slide_line_eq old(1) bind_result_Inr prod.case ..
  with old(2) show ?thesis
    by (intro exI [of _ old] conjI)
qed

lemma line_shift_step:
  assumes w: "0 < width b" and h: "0 < height b"
    and v: "coord \<in> get_valid_insert_locations b d"
    and c: "in_bounds b c"
  shows "on_line coord d c \<Longrightarrow> c \<noteq> far_edge b coord d
           \<Longrightarrow> line_shift b coord d c = step d c \<and> in_bounds b (step d c)"
    and "\<not> on_line coord d c \<Longrightarrow> line_shift b coord d c = c"
proof -
  note l = valid_insert_location [OF w h v]
  show "line_shift b coord d c = step d c \<and> in_bounds b (step d c)"
    if "on_line coord d c" "c \<noteq> far_edge b coord d"
    using that c l(1)
    by (cases d; cases c)
       (auto simp: line_shift_def on_line_def is_vertical_def far_edge_def step_def
          row_shift_def column_shift_def in_bounds_def)
  show "line_shift b coord d c = c" if "\<not> on_line coord d c"
    using that
    by (cases d)
       (auto simp: line_shift_def on_line_def is_vertical_def row_shift_def column_shift_def)
qed

lemma map_of_line_replacements_vertical:
  assumes "is_vertical d"
  shows "map_of (line_replacements b coord d) c =
           (if col c = col coord \<and> 0 \<le> row c \<and> row c < height b
               \<and> 0 \<le> row c + Direction_dy d \<and> row c + Direction_dy d < height b
            then Some (Coord (col coord) (row c + Direction_dy d)) else None)"
  using assms by (simp only: line_replacements_def if_True column_replacements(2))

lemma map_of_line_replacements_horizontal:
  assumes "\<not> is_vertical d"
  shows "map_of (line_replacements b coord d) c =
           (if row c = row coord \<and> 0 \<le> col c \<and> col c < width b
               \<and> 0 \<le> col c + Direction_dx d \<and> col c + Direction_dx d < width b
            then Some (Coord (col c + Direction_dx d) (row coord)) else None)"
  using assms by (simp only: line_replacements_def if_False row_replacements(2))

lemma map_of_line_replacements:
  assumes w: "0 < width b" and h: "0 < height b"
    and v: "coord \<in> get_valid_insert_locations b d"
  shows "map_of (line_replacements b coord d) c =
           (if in_bounds b c \<and> on_line coord d c \<and> c \<noteq> far_edge b coord d
            then Some (step d c) else None)"
proof -
  note l = valid_insert_location [OF w h v]
  show ?thesis
  proof (cases "is_vertical d")
    case True
    then have d: "d = UP \<or> d = DOWN"
      by (simp add: is_vertical_def)
    show ?thesis
      unfolding map_of_line_replacements_vertical [OF True]
      using l(1) d
      by (cases c) (auto simp: on_line_def is_vertical_def far_edge_def step_def in_bounds_def)
  next
    case False
    then have d: "d = LEFT \<or> d = RIGHT"
      by (cases d) (simp_all add: is_vertical_def)
    show ?thesis
      unfolding map_of_line_replacements_horizontal [OF False]
      using l(1) d
      by (cases c) (auto simp: on_line_def is_vertical_def far_edge_def step_def in_bounds_def)
  qed
qed

lemma slide_and_insert_tile_ok:
  assumes bv: "Board_valid b" and v: "coord \<in> get_valid_insert_locations b d"
    and g: "gems tile \<notin> set (map gems (remaining_tiles b (far_edge b coord d)))"
  defines "new_tiles \<equiv>
             AList.update coord tile
               (dict_of_items (slid_items (line_shift b coord d) (far_edge b coord d) (tiles b)))"
  shows "\<exists>old. map_of (tiles b) (far_edge b coord d) = Some old
    \<and> slide_and_insert_tile b coord d tile =
        Inr (\<lparr>tiles = new_tiles, width = width b, height = height b\<rparr>, old,
             BoardEdit (line_replacements b coord d) {far_edge b coord d})"
    and "Tile_valid tile \<Longrightarrow>
           Board_valid \<lparr>tiles = new_tiles, width = width b, height = height b\<rparr>"
    and "values_of new_tiles = remaining_tiles b (far_edge b coord d) @ [tile]"
    and "map_of new_tiles coord = Some tile"
    and "\<And>c. in_bounds b c \<Longrightarrow> c \<noteq> far_edge b coord d
           \<Longrightarrow> map_of new_tiles (line_shift b coord d c) = map_of (tiles b) c"
    and "set (keys new_tiles) = rect (width b) (height b)"
    and "distinct (keys new_tiles)"
proof -
  note k = Board_valid_keys [OF bv]
  note f = line_shift_facts [OF k(1,2) v]
  have co: "coord \<in> rect (width b) (height b)"
    using valid_insert_location(1) [OF k(1,2) v] by (simp add: in_bounds_rect)
  note s = slid_board [OF bv f co g, folded new_tiles_def]
  from slide_and_insert_tile_eq [OF bv v, of tile, folded new_tiles_def]
  obtain old where old: "map_of (tiles b) (far_edge b coord d) = Some old"
    "slide_and_insert_tile b coord d tile =
        bind_result (with_tiles b new_tiles)
          (\<lambda>new_board.
             Inr (new_board, old, BoardEdit (line_replacements b coord d) {far_edge b coord d}))"
    by (elim exE conjE)
  have "slide_and_insert_tile b coord d tile =
        Inr (\<lparr>tiles = new_tiles, width = width b, height = height b\<rparr>, old,
             BoardEdit (line_replacements b coord d) {far_edge b coord d})"
    unfolding old(2) s(1) bind_result_Inr ..
  with old(1) show "\<exists>old. map_of (tiles b) (far_edge b coord d) = Some old
    \<and> slide_and_insert_tile b coord d tile =
        Inr (\<lparr>tiles = new_tiles, width = width b, height = height b\<rparr>, old,
             BoardEdit (line_replacements b coord d) {far_edge b coord d})"
    by (intro exI [of _ old] conjI)
  show "Tile_valid tile \<Longrightarrow>
           Board_valid \<lparr>tiles = new_tiles, width = width b, height = height b\<rparr>"
    by (rule s(2))
  show "values_of new_tiles = remaining_tiles b (far_edge b coord d) @ [tile]"
    by (rule s(3))
  show "map_of new_tiles coord = Some tile"
    by (rule s(4))
  show "map_of new_tiles (line_shift b coord d c) = map_of (tiles b) c"
    if "in_bounds b c" "c \<noteq> far_edge b coord d" for c
    using that s(5) [of c] by (simp add: in_bounds_rect)
  show ks: "set (keys new_tiles) = rect (width b) (height b)"
    by (rule s(6))
  have "Board_init new_tiles (width b) (height b)
          = Inr \<lparr>tiles = new_tiles, width = width b, height = height b\<rparr>"
    using s(1) by (simp add: with_tiles_def)
  then have le: "int (length new_tiles) \<le> width b * height b"
    by (simp add: Board_init_eq)
  have "int (card (rect (width b) (height b))) = width b * height b"
    using k(1,2) by (intro card_rect) simp_all
  with le ks have "length (keys new_tiles) \<le> card (set (keys new_tiles))"
    by (simp add: keys_def)
  then show "distinct (keys new_tiles)"
    using card_length [of "keys new_tiles"] by (intro card_distinct) simp
qed

lemma Board_init_error: "Board_init ts w h = Inl e \<Longrightarrow> e = ValueError"
  by (auto simp: Board_init_def validate_tile_gems_def Let_def split: if_splits)

lemma slide_and_insert_tile_duplicate:
  assumes bv: "Board_valid b" and v: "coord \<in> get_valid_insert_locations b d"
    and g: "gems tile \<in> set (map gems (remaining_tiles b (far_edge b coord d)))"
  shows "slide_and_insert_tile b coord d tile = Inl ValueError"
proof -
  let ?new = "AList.update coord tile
               (dict_of_items (slid_items (line_shift b coord d) (far_edge b coord d) (tiles b)))"
  note k = Board_valid_keys [OF bv]
  note f = line_shift_facts [OF k(1,2) v]
  have co: "coord \<in> rect (width b) (height b)"
    using valid_insert_location(1) [OF k(1,2) v] by (simp add: in_bounds_rect)
  note s = slid_items_insert [OF k(4) f [folded k(3)] co [folded k(3)], where tile = tile]
  have vals: "values_of ?new = remaining_tiles b (far_edge b coord d) @ [tile]"
    using s(4) by (simp add: remaining_tiles_def)
  have nd: "\<not> distinct (map gems (values_of ?new))"
    using g by (simp add: vals)
  have w: "with_tiles b ?new = Inl ValueError"
  proof (cases "with_tiles b ?new")
    case (Inl e)
    then show ?thesis
      using Board_init_error [of ?new "width b" "height b" e] by (simp add: with_tiles_def)
  next
    case (Inr b')
    then have "distinct (map gems (values_of ?new))"
      unfolding with_tiles_def Board_init_eq by (elim conjE)
    with nd show ?thesis
      by (rule notE)
  qed
  from slide_and_insert_tile_eq [OF bv v, of tile]
  obtain old where "slide_and_insert_tile b coord d tile =
        bind_result (with_tiles b ?new)
          (\<lambda>new_board.
             Inr (new_board, old, BoardEdit (line_replacements b coord d) {far_edge b coord d}))"
    by (elim exE conjE)
  then show ?thesis
    unfolding w bind_result_Inl .
qed

lemma slide_and_insert_tile_fresh:
  assumes "Board_valid b" and "coord \<in> get_valid_insert_locations b d"
    and "gems tile \<notin> set (map gems (remaining_tiles b (far_edge b coord d)))"
  shows "\<exists>b' old edit.
      slide_and_insert_tile b coord d tile = Inr (b', old, edit)
    \<and> map_of (tiles b) (far_edge b coord d) = Some old
    \<and> width b' = width b \<and> height b' = height b
    \<and> set (keys (tiles b')) = {c. in_bounds b' c} \<and> distinct (keys (tiles b'))
    \<and> (\<forall>c. in_bounds b' c \<longrightarrow> (\<exists>t. map_of (tiles b') c = Some t))
    \<and> map_of (tiles b') coord = Some tile
    \<and> (\<forall>c. in_bounds b c \<and> on_line coord d c \<and> c \<noteq> far_edge b coord d \<longrightarrow>
           in_bounds b (step d c) \<and> map_of (tiles b') (step d c) = map_of (tiles b) c)
    \<and> (\<forall>c. in_bounds b c \<and> \<not> on_line coord d c \<longrightarrow>
           map_of (tiles b') c = map_of (tiles b) c)
    \<and> deletions edit = {far_edge b coord d}
    \<and> (\<forall>c. map_of (replacements edit) c =
           (if in_bounds b c \<and> on_line coord d c \<and> c \<noteq> far_edge b coord d
            then Some (step d c) else None))
    \<and> (Tile_valid tile \<longrightarrow> Board_valid b')"
proof -
  let ?new = "AList.update coord tile
               (dict_of_items (slid_items (line_shift b coord d) (far_edge b coord d) (tiles b)))"
  let ?b = "\<lparr>tiles = ?new, width = width b, height = height b\<rparr>"
  let ?e = "BoardEdit (line_replacements b coord d) {far_edge b coord d}"
  note k = Board_valid_keys [OF assms(1)]
  note s = slide_and_insert_tile_ok [OF assms]
  from s(1) obtain old where old: "map_of (tiles b) (far_edge b coord d) = Some old"
    "slide_and_insert_tile b coord d tile = Inr (?b, old, ?e)"
    by (elim exE conjE)
  have ks: "set (keys (tiles ?b)) = {c. in_bounds ?b c}"
    using s(6) by (auto simp: in_bounds_def rect_def)
  have total: "\<forall>c. in_bounds ?b c \<longrightarrow> (\<exists>t. map_of (tiles ?b) c = Some t)"
  proof (intro allI impI)
    fix c
    assume "in_bounds ?b c"
    with ks have "c \<in> set (keys (tiles ?b))"
      by simp
    from dict_lookup_present [OF this] show "\<exists>t. map_of (tiles ?b) c = Some t"
      by (elim exE conjE) (rule exI)
  qed
  have moved: "\<forall>c. in_bounds b c \<and> on_line coord d c \<and> c \<noteq> far_edge b coord d \<longrightarrow>
           in_bounds b (step d c) \<and> map_of (tiles ?b) (step d c) = map_of (tiles b) c"
  proof (intro allI impI)
    fix c
    assume c: "in_bounds b c \<and> on_line coord d c \<and> c \<noteq> far_edge b coord d"
    then have l: "line_shift b coord d c = step d c" "in_bounds b (step d c)"
      using line_shift_step(1) [OF k(1,2) assms(2), of c] by simp_all
    from c s(5) [of c] have "map_of ?new (line_shift b coord d c) = map_of (tiles b) c"
      by simp
    with l show "in_bounds b (step d c) \<and> map_of (tiles ?b) (step d c) = map_of (tiles b) c"
      by simp
  qed
  have kept: "\<forall>c. in_bounds b c \<and> \<not> on_line coord d c \<longrightarrow>
           map_of (tiles ?b) c = map_of (tiles b) c"
  proof (intro allI impI)
    fix c
    assume c: "in_bounds b c \<and> \<not> on_line coord d c"
    then have l: "line_shift b coord d c = c"
      using line_shift_step(2) [OF k(1,2) assms(2), of c] by simp
    have "on_line coord d (far_edge b coord d)"
      by (cases d) (simp_all add: on_line_def far_edge_def is_vertical_def)
    with c have "c \<noteq> far_edge b coord d"
      by auto
    with c s(5) [of c] have "map_of ?new (line_shift b coord d c) = map_of (tiles b) c"
      by simp
    with l show "map_of (tiles ?b) c = map_of (tiles b) c"
      by simp
  qed
  have repl: "\<forall>c. map_of (replacements ?e) c =
           (if in_bounds b c \<and> on_line coord d c \<and> c \<noteq> far_edge b coord d
            then Some (step d c) else None)"
    using map_of_line_replacements [OF k(1,2) assms(2)] by simp
  have "slide_and_insert_tile b coord d tile = Inr (?b, old, ?e)
    \<and> map_of (tiles b) (far_edge b coord d) = Some old
    \<and> width ?b = width b \<and> height ?b = height b
    \<and> set (keys (tiles ?b)) = {c. in_bounds ?b c} \<and> distinct (keys (tiles ?b))
    \<and> (\<forall>c. in_bounds ?b c \<longrightarrow> (\<exists>t. map_of (tiles ?b) c = Some t))
    \<and> map_of (tiles ?b) coord = Some tile
    \<and> (\<forall>c. in_bounds b c \<and> on_line coord d c \<and> c \<noteq> far_edge b coord d \<longrightarrow>
           in_bounds b (step d c) \<and> map_of (tiles ?b) (step d c) = map_of (tiles b) c)
    \<and> (\<forall>c. in_bounds b c \<and> \<not> on_line coord d c \<longrightarrow>
           map_of (tiles ?b) c = map_of (tiles b) c)
    \<and> deletions ?e = {far_edge b coord d}
    \<and> (\<forall>c. map_of (replacements ?e) c =
           (if in_bounds b c \<and> on_line coord d c \<and> c \<noteq> far_edge b coord d
            then Some (step d c) else None))
    \<and> (Tile_valid tile \<longrightarrow> Board_valid ?b)"
    using old ks s(7) total s(4) moved kept repl s(2)
    by (intro conjI impI) simp_all
  then show ?thesis
    by (intro exI)
qed

text \<open>
  Claim C3, as amended. Let the board be valid and \<open>coord\<close> a valid insert location for
  the direction. If the gem pair of the new tile differs from that of every tile that
  stays on the board, \<open>slide_and_insert_tile\<close> returns a board, a tile and an edit:
  the tile is the one that was at the far edge of the row or column; the board has the
  same width and height and a tile at exactly the coordinates of its rectangle, each
  once; the new tile is at \<open>coord\<close>; every other tile of the row (for a horizontal
  direction) or column (for a vertical one) has moved one step in the direction, and
  every tile outside it is where it was; the deletions of the edit are the far edge
  alone, and its replacements map exactly the cells of the row or column other than the
  far edge, each to the next cell in the direction; the new board is valid when the new
  tile is. If the gem pair of the new tile is that of a tile staying on the board, the
  constructor of the new board raises \<open>ValueError\<close>.
\<close>

theorem slide_and_insert_tile_effect:
  assumes "Board_valid b" and "coord \<in> get_valid_insert_locations b d"
  shows "(gems tile \<notin> set (map gems (remaining_tiles b (far_edge b coord d))) \<longrightarrow>
     (\<exists>b' old edit.
         slide_and_insert_tile b coord d tile = Inr (b', old, edit)
       \<and> map_of (tiles b) (far_edge b coord d) = Some old
       \<and> width b' = width b \<and> height b' = height b
       \<and> set (keys (tiles b')) = {c. in_bounds b' c} \<and> distinct (keys (tiles b'))
       \<and> (\<forall>c. in_bounds b' c \<longrightarrow> (\<exists>t. map_of (tiles b') c = Some t))
       \<and> map_of (tiles b') coord = Some tile
       \<and> (\<forall>c. in_bounds b c \<and> on_line coord d c \<and> c \<noteq> far_edge b coord d \<longrightarrow>
              in_bounds b (step d c) \<and> map_of (tiles b') (step d c) = map_of (tiles b) c)
       \<and> (\<forall>c. in_bounds b c \<and> \<not> on_line coord d c \<longrightarrow>
              map_of (tiles b') c = map_of (tiles b) c)
       \<and> deletions edit = {far_edge b coord d}
       \<and> (\<forall>c. map_of (replacements edit) c =
              (if in_bounds b c \<and> on_line coord d c \<and> c \<noteq> far_edge b coord d
               then Some (step d c) else None))
       \<and> (Tile_valid tile \<longrightarrow> Board_valid b')))
   \<and> (gems tile \<in> set (map gems (remaining_tiles b (far_edge b coord d))) \<longrightarrow>
        slide_and_insert_tile b coord d tile = Inl ValueError)"
  by (rule conjI; rule impI;
      erule slide_and_insert_tile_fresh [OF assms] slide_and_insert_tile_duplicate [OF assms])

theorem slide_and_insert_tile_effect_witness:
  "Board_valid example_board
   \<and> Coord 0 0 \<in> get_valid_insert_locations example_board DOWN
   \<and> far_edge example_board (Coord 0 0) DOWN = Coord 0 2
   \<and> slide_and_insert_tile example_board (Coord 0 0) DOWN example_spare =
       Inr (example_shifted_board, example_dropped_tile,
            BoardEdit [(Coord 0 0, Coord 0 1), (Coord 0 1, Coord 0 2)] {Coord 0 2})
   \<and> map_of (tiles example_board) (Coord 0 2) = Some example_dropped_tile
   \<and> map_of (tiles example_shifted_board) (Coord 0 0) = Some example_spare
   \<and> map_of (tiles example_shifted_board) (Coord 0 1) = map_of (tiles example_board) (Coord 0 0)
   \<and> Board_valid example_shifted_board
   \<and> slide_and_insert_tile example_board (Coord 0 0) DOWN
        \<lparr>shape = CORNER, rotation = 1, gems = (''alexandrite'', ''aplite'')\<rparr> = Inl ValueError"
proof -
  let ?dup = "\<lparr>shape = CORNER, rotation = 1, gems = (''alexandrite'', ''aplite'')\<rparr>"
  have bv: "Board_valid example_board"
    and v: "Coord 0 0 \<in> get_valid_insert_locations example_board DOWN"
    and g: "gems example_spare
              \<notin> set (map gems (remaining_tiles example_board
                                   (far_edge example_board (Coord 0 0) DOWN)))"
    and g': "gems ?dup
              \<in> set (map gems (remaining_tiles example_board
                                   (far_edge example_board (Coord 0 0) DOWN)))"
    and tv: "Tile_valid example_spare"
    and fe: "far_edge example_board (Coord 0 0) DOWN = Coord 0 2"
    and st: "step DOWN (Coord 0 0) = Coord 0 1"
    and c: "in_bounds example_board (Coord 0 0) \<and> on_line (Coord 0 0) DOWN (Coord 0 0)
              \<and> Coord 0 0 \<noteq> far_edge example_board (Coord 0 0) DOWN"
    by code_simp+
  have ev: "slide_and_insert_tile example_board (Coord 0 0) DOWN example_spare =
       Inr (example_shifted_board, example_dropped_tile,
            BoardEdit [(Coord 0 0, Coord 0 1), (Coord 0 1, Coord 0 2)] {Coord 0 2})"
    by code_simp
  from slide_and_insert_tile_effect [OF bv v, THEN conjunct1, THEN mp, OF g]
  obtain b' old edit where
    p: "slide_and_insert_tile example_board (Coord 0 0) DOWN example_spare = Inr (b', old, edit)"
      "map_of (tiles example_board) (far_edge example_board (Coord 0 0) DOWN) = Some old"
      "map_of (tiles b') (Coord 0 0) = Some example_spare"
      "\<forall>c. in_bounds example_board c \<and> on_line (Coord 0 0) DOWN c
             \<and> c \<noteq> far_edge example_board (Coord 0 0) DOWN \<longrightarrow>
           in_bounds example_board (step DOWN c)
           \<and> map_of (tiles b') (step DOWN c) = map_of (tiles example_board) c"
      "Tile_valid example_spare \<longrightarrow> Board_valid b'"
    by (elim exE conjE)
  from p(1) ev have b': "b' = example_shifted_board" and o: "old = example_dropped_tile"
    by simp_all
  have 1: "map_of (tiles example_board) (Coord 0 2) = Some example_dropped_tile"
    using p(2) by (simp only: fe o)
  have 2: "map_of (tiles example_shifted_board) (Coord 0 0) = Some example_spare"
    using p(3) by (simp only: b')
  have 3: "map_of (tiles example_shifted_board) (Coord 0 1)
             = map_of (tiles example_board) (Coord 0 0)"
    using p(4) [THEN spec, THEN mp, OF c, THEN conjunct2] by (simp only: b' st)
  have 4: "Board_valid example_shifted_board"
    using p(5) [THEN mp, OF tv] by (simp only: b')
  have 5: "slide_and_insert_tile example_board (Coord 0 0) DOWN ?dup = Inl ValueError"
    by (rule slide_and_insert_tile_effect [OF bv v, THEN conjunct2, THEN mp, OF g'])
  show ?thesis
    by (intro conjI bv v fe ev 1 2 3 4 5)
qed

text \<open>
  Claim C3 as it is stated, for every tile, fails for a tile whose gem pair is that of a
  tile staying on the board: the constructor of the new board raises \<open>ValueError\<close>.
\<close>

theorem slide_duplicate_gems_counterexample:
  "Board_valid example_board
   \<and> Coord 0 0 \<in> get_valid_insert_locations example_board DOWN
   \<and> Tile_valid \<lparr>shape = LINE, rotation = 0, gems = (''alexandrite'', ''aplite'')\<rparr>
   \<and> slide_and_insert_tile example_board (Coord 0 0) DOWN
        \<lparr>shape = LINE, rotation = 0, gems = (''alexandrite'', ''aplite'')\<rparr> = Inl ValueError"
  by code_simp

end
